theory Spec2Isabelle
  imports Complex_Main "HOL-Library.Sublist"
begin

section \<open>JavaScript values\<close>

text \<open>
  Strings are their UTF-8 bytes. Response bodies are what \<^verbatim>\<open>response.json()\<close>
  yields: JSON values. A number is kept by what the handlers observe of it: whether it
  is zero, and the text that \<^verbatim>\<open>String\<close> gives for it. An object is its list of
  key/value pairs in document order.
\<close>

record js_number =
  nonzero :: bool
  printed :: string

datatype json =
    JNull
  | JBool bool
  | JNum js_number
  | JStr string
  | JArr "json list"
  | JObj "(string \<times> json) list"

text \<open>Decimal rendering of a natural number, as \<^verbatim>\<open>toString()\<close> and template literals do.\<close>

definition digit :: "nat \<Rightarrow> char" where
  "digit d = ''0123456789'' ! d"

function show_nat :: "nat \<Rightarrow> string" where
  "show_nat n = (if n < 10 then [digit n] else show_nat (n div 10) @ [digit (n mod 10)])"
  by pat_completeness auto
termination
  by (relation "measure (\<lambda>n. n)") auto

declare show_nat.simps [simp del]

text \<open>
  An expression that may be \<^verbatim>\<open>undefined\<close> has type \<open>jsval\<close>: \<open>None\<close> is
  \<^verbatim>\<open>undefined\<close>. An expression that may throw returns \<open>js_error + 'a\<close>.
\<close>

type_synonym jsval = "json option"

datatype js_error = TypeError

text \<open>Truthiness, as \<^verbatim>\<open>if (v)\<close> and \<^verbatim>\<open>a || b\<close> test it.\<close>

fun truthy :: "json \<Rightarrow> bool" where
  "truthy JNull = False"
| "truthy (JBool b) = b"
| "truthy (JNum n) = nonzero n"
| "truthy (JStr s) = (s \<noteq> [])"
| "truthy (JArr xs) = True"
| "truthy (JObj kvs) = True"

definition truthy_val :: "jsval \<Rightarrow> bool" where
  "truthy_val v = (case v of None \<Rightarrow> False | Some j \<Rightarrow> truthy j)"

text \<open>
  Property read \<^verbatim>\<open>v.key\<close> for the keys the handlers read (\<^verbatim>\<open>detail\<close>,
  \<^verbatim>\<open>msg\<close>, \<^verbatim>\<open>message\<close>, \<^verbatim>\<open>answer\<close>, \<^verbatim>\<open>sources\<close>): reading from
  \<^verbatim>\<open>null\<close> throws a TypeError; an object yields the value of its last entry with
  that key, as \<^verbatim>\<open>JSON.parse\<close> keeps it; every other value has no such property.
\<close>

fun js_get :: "json \<Rightarrow> string \<Rightarrow> js_error + jsval" where
  "js_get JNull key = Inl TypeError"
| "js_get (JObj kvs) key = Inr (map_of (rev kvs) key)"
| "js_get v key = Inr None"

text \<open>Joining strings with a separator.\<close>

fun intercalate :: "string \<Rightarrow> string list \<Rightarrow> string" where
  "intercalate sep [] = []"
| "intercalate sep [x] = x"
| "intercalate sep (x # y # ys) = x @ sep @ intercalate sep (y # ys)"

text \<open>\<^verbatim>\<open>xs.map(f)\<close> where \<open>f\<close> may throw: the first exception ends the map.\<close>

fun map_throw :: "('a \<Rightarrow> js_error + 'b) \<Rightarrow> 'a list \<Rightarrow> js_error + 'b list" where
  "map_throw f [] = Inr []"
| "map_throw f (x # xs) =
     (case f x of
        Inl e \<Rightarrow> Inl e
      | Inr y \<Rightarrow> (case map_throw f xs of Inl e \<Rightarrow> Inl e | Inr ys \<Rightarrow> Inr (y # ys)))"

lemma map_throw_cong [fundef_cong]:
  "xs = ys \<Longrightarrow> (\<And>x. x \<in> set ys \<Longrightarrow> f x = g x) \<Longrightarrow> map_throw f xs = map_throw g ys"
proof (induction ys arbitrary: xs)
  case Nil
  then show ?case by simp
next
  case (Cons y ys)
  from Cons.prems have "f y = g y" and "\<And>x. x \<in> set ys \<Longrightarrow> f x = g x" by simp_all
  with Cons.IH[of ys] Cons.prems(1) show ?case by (simp split: sum.split)
qed

text \<open>
  \<^verbatim>\<open>String(v)\<close>, which template literals and \<^verbatim>\<open>Array.prototype.join\<close> apply.
  An array is its elements joined by a comma, \<^verbatim>\<open>null\<close> elements being empty. An
  object without a \<^verbatim>\<open>toString\<close> entry gives \<^verbatim>\<open>[object Object]\<close>; with such an
  entry, which no JSON value makes callable, the conversion throws a TypeError.
\<close>

fun js_toString :: "json \<Rightarrow> js_error + string" where
  "js_toString JNull = Inr ''null''"
| "js_toString (JBool b) = Inr (if b then ''true'' else ''false'')"
| "js_toString (JNum n) = Inr (printed n)"
| "js_toString (JStr s) = Inr s"
| "js_toString (JArr xs) =
     (case map_throw (\<lambda>x. if x = JNull then Inr [] else js_toString x) xs of
        Inl e \<Rightarrow> Inl e
      | Inr ss \<Rightarrow> Inr (intercalate '','' ss))"
| "js_toString (JObj kvs) =
     (if map_of kvs ''toString'' \<noteq> None then Inl TypeError else Inr ''[object Object]'')"

text \<open>\<^verbatim>\<open>xs.join(sep)\<close>: \<^verbatim>\<open>undefined\<close> and \<^verbatim>\<open>null\<close> elements are empty.\<close>

definition js_join :: "string \<Rightarrow> jsval list \<Rightarrow> js_error + string" where
  "js_join sep xs =
     (case map_throw
             (\<lambda>x. case x of None \<Rightarrow> Inr []
                  | Some j \<Rightarrow> if j = JNull then Inr [] else js_toString j) xs of
        Inl e \<Rightarrow> Inl e
      | Inr ss \<Rightarrow> Inr (intercalate sep ss))"

text \<open>\<^verbatim>\<open>s.includes(t)\<close> on strings: \<open>t\<close> occurs in \<open>s\<close> as a contiguous part.\<close>

fun includes_str :: "string \<Rightarrow> string \<Rightarrow> bool" where
  "includes_str [] t = (t = [])"
| "includes_str (c # cs) t = (prefix t (c # cs) \<or> includes_str cs t)"

text \<open>
  \<^verbatim>\<open>v.includes(t)\<close> on a value of unknown shape: substring test on a string,
  membership of the string among the elements of an array, and a TypeError on a value
  that has no \<^verbatim>\<open>includes\<close> method.
\<close>

fun js_includes :: "json \<Rightarrow> string \<Rightarrow> js_error + bool" where
  "js_includes (JStr s) t = Inr (includes_str s t)"
| "js_includes (JArr xs) t = Inr (JStr t \<in> set xs)"
| "js_includes v t = Inl TypeError"

text \<open>
  The white space and line terminators of the language, each as its UTF-8 bytes: U+0009
  to U+000D, U+0020, U+00A0, U+1680, U+2000 to U+200A, U+2028, U+2029, U+202F, U+205F,
  U+3000 and U+FEFF.
\<close>

definition white_space :: "string list" where
  "white_space =
     [[CHR 0x09], [CHR 0x0A], [CHR 0x0B], [CHR 0x0C], [CHR 0x0D], [CHR 0x20],
      [CHR 0xC2, CHR 0xA0],
      [CHR 0xE1, CHR 0x9A, CHR 0x80],
      [CHR 0xE2, CHR 0x80, CHR 0x80], [CHR 0xE2, CHR 0x80, CHR 0x81],
      [CHR 0xE2, CHR 0x80, CHR 0x82], [CHR 0xE2, CHR 0x80, CHR 0x83],
      [CHR 0xE2, CHR 0x80, CHR 0x84], [CHR 0xE2, CHR 0x80, CHR 0x85],
      [CHR 0xE2, CHR 0x80, CHR 0x86], [CHR 0xE2, CHR 0x80, CHR 0x87],
      [CHR 0xE2, CHR 0x80, CHR 0x88], [CHR 0xE2, CHR 0x80, CHR 0x89],
      [CHR 0xE2, CHR 0x80, CHR 0x8A],
      [CHR 0xE2, CHR 0x80, CHR 0xA8], [CHR 0xE2, CHR 0x80, CHR 0xA9],
      [CHR 0xE2, CHR 0x80, CHR 0xAF],
      [CHR 0xE2, CHR 0x81, CHR 0x9F],
      [CHR 0xE3, CHR 0x80, CHR 0x80],
      [CHR 0xEF, CHR 0xBB, CHR 0xBF]]"

function strip_leading :: "string list \<Rightarrow> string \<Rightarrow> string" where
  "strip_leading ws s =
     (case find (\<lambda>w. w \<noteq> [] \<and> prefix w s) ws of
        None \<Rightarrow> s
      | Some w \<Rightarrow> strip_leading ws (drop (length w) s))"
  by pat_completeness auto
termination
proof (relation "measure (\<lambda>(ws, s). length s)")
  show "wf (measure (\<lambda>(ws, s). length s))" by simp
next
  fix ws :: "string list" and s w :: string
  assume "find (\<lambda>w. w \<noteq> [] \<and> prefix w s) ws = Some w"
  then have "w \<noteq> []" and "prefix w s" by (auto simp: find_Some_iff)
  then have "s \<noteq> []" by auto
  with \<open>w \<noteq> []\<close> show "((ws, drop (length w) s), ws, s) \<in> measure (\<lambda>(ws, s). length s)"
    by simp
qed

declare strip_leading.simps [simp del]

text \<open>\<^verbatim>\<open>s.trim()\<close>: white space is removed from both ends.\<close>

definition trim :: "string \<Rightarrow> string" where
  "trim s = rev (strip_leading (map rev white_space) (rev (strip_leading white_space s)))"

text \<open>
  \<^verbatim>\<open>parseInt(s)\<close> with no radix: leading white space, an optional sign, an optional
  \<^verbatim>\<open>0x\<close> prefix, then the longest run of digits; \<open>None\<close> is \<^verbatim>\<open>NaN\<close>.
\<close>

definition digit_val :: "char \<Rightarrow> nat option" where
  "digit_val c = map_of
     [(CHR ''0'', 0), (CHR ''1'', 1), (CHR ''2'', 2), (CHR ''3'', 3), (CHR ''4'', 4),
      (CHR ''5'', 5), (CHR ''6'', 6), (CHR ''7'', 7), (CHR ''8'', 8), (CHR ''9'', 9),
      (CHR ''a'', 10), (CHR ''b'', 11), (CHR ''c'', 12), (CHR ''d'', 13), (CHR ''e'', 14),
      (CHR ''f'', 15), (CHR ''A'', 10), (CHR ''B'', 11), (CHR ''C'', 12), (CHR ''D'', 13),
      (CHR ''E'', 14), (CHR ''F'', 15)] c"

definition is_digit :: "nat \<Rightarrow> char \<Rightarrow> bool" where
  "is_digit radix c = (case digit_val c of None \<Rightarrow> False | Some d \<Rightarrow> d < radix)"

definition digits_value :: "nat \<Rightarrow> string \<Rightarrow> nat" where
  "digits_value radix ds = foldl (\<lambda>acc c. acc * radix + the (digit_val c)) 0 ds"

definition parseInt :: "string \<Rightarrow> int option" where
  "parseInt s =
     (let s1 = strip_leading white_space s;
          neg = (case s1 of [] \<Rightarrow> False | c # r \<Rightarrow> c = CHR ''-'');
          s2 = (case s1 of [] \<Rightarrow> [] | c # r \<Rightarrow> if c = CHR ''-'' \<or> c = CHR ''+'' then r else s1);
          hex = (prefix ''0x'' s2 \<or> prefix ''0X'' s2);
          radix = (if hex then 16 else 10);
          s3 = (if hex then drop 2 s2 else s2);
          ds = takeWhile (is_digit radix) s3
      in if ds = [] then None
         else Some ((if neg then - 1 else 1) * int (digits_value radix ds)))"

section \<open>Requests, responses and effects\<close>

text \<open>
  What \<^verbatim>\<open>await fetch(...)\<close> gives: the promise is rejected, or a response arrives
  with its status line and a body that \<^verbatim>\<open>response.json()\<close> parses (\<open>None\<close>: the body
  is not JSON and \<^verbatim>\<open>response.json()\<close> rejects).
\<close>

record response =
  ok :: bool
  status :: nat
  statusText :: string
  body :: "json option"

datatype fetch_result = Rejected | Response response

datatype role = User | Assistant

record message =
  msg_id :: string
  msg_role :: role
  msg_content :: jsval
  msg_timestamp :: nat
  msg_sources :: jsval

datatype connection = Connected | Disconnected | Checking

text \<open>
  A handler is modelled by the effects it performs, in program order: state setters,
  requests (\<open>Fetch\<close> when \<^verbatim>\<open>fetch\<close> is called, \<open>Settled\<close> when the awaited promise
  has resolved or rejected), notices, local-storage writes, timers, and calls that are
  started without being awaited.
\<close>

datatype effect =
    Fetch string string "json option"
  | Settled string string
  | Toast_success jsval
  | Toast_error jsval
  | SetSelectedHub string
  | SetPreviousHub "string option"
  | SetMessages "message list"
  | AppendMessage message
  | SetInput string
  | SetIsLoading bool
  | SetIsHubOperationLoading bool
  | SetError jsval
  | SetConnectionStatus connection
  | SetItem string string
  | RemoveItem string
  | Redirect string
  | SetTimeout nat nat
  | SetIsLoaded bool
  | SetShowCreateModal bool
  | Call_fetchLoadedHubs
  | Call_fetchHubs
  | Call_onUpdate
  | Call_checkLoadedStatus

section \<open>Session guard\<close>

type_synonym storage = "string \<rightharpoonup> string"

text \<open>\<^verbatim>\<open>if (localStorage.getItem(k))\<close>: the item exists and is not the empty string.\<close>

definition truthy_item :: "string option \<Rightarrow> bool" where
  "truthy_item v = (case v of None \<Rightarrow> False | Some s \<Rightarrow> s \<noteq> [])"

text \<open>
  \<^verbatim>\<open>now - parseInt(lastLoad) > 3000\<close>; a comparison with \<^verbatim>\<open>NaN\<close> is false.
\<close>

definition timeDiff_exceeds :: "nat \<Rightarrow> string option \<Rightarrow> bool" where
  "timeDiff_exceeds now lastLoad =
     (case lastLoad of None \<Rightarrow> False
      | Some s \<Rightarrow> (case parseInt s of None \<Rightarrow> False | Some t \<Rightarrow> int now - t > 3000))"

definition forced_logout :: "effect list" where
  "forced_logout =
     [RemoveItem ''isAuthenticated'', RemoveItem ''user'', RemoveItem ''loadTime'',
      RemoveItem ''justLoggedIn'', Redirect ''/login'']"

text \<open>
  The mount effect of \<^verbatim>\<open>DashboardPage\<close>. \<open>now\<close> is \<^verbatim>\<open>Date.now()\<close>, \<open>ls\<close> the local
  storage it reads, \<open>navigationType\<close> the \<^verbatim>\<open>type\<close> of the first navigation entry of
  \<^verbatim>\<open>performance\<close> (\<open>None\<close> when there is no entry).
\<close>

definition DashboardPage_authCheck :: "nat \<Rightarrow> string option \<Rightarrow> storage \<Rightarrow> effect list" where
  "DashboardPage_authCheck now navigationType ls =
     (let lastLoad = ls ''lastPageLoad'';
          justLoggedIn = ls ''justLoggedIn''
      in if truthy_item justLoggedIn
         then [RemoveItem ''justLoggedIn'', SetItem ''lastPageLoad'' (show_nat now)]
         else
           let isActualRefresh = (navigationType = Some ''reload'')
           in if truthy_item lastLoad \<and> isActualRefresh \<and> timeDiff_exceeds now lastLoad
              then forced_logout
              else [SetItem ''lastPageLoad'' (show_nat now)])"

text \<open>The mount effect of \<^verbatim>\<open>ChatPage\<close>: it does not read the navigation entry.\<close>

definition ChatPage_authCheck :: "nat \<Rightarrow> storage \<Rightarrow> effect list" where
  "ChatPage_authCheck now ls =
     (let lastLoad = ls ''lastPageLoad'';
          justLoggedIn = ls ''justLoggedIn''
      in if truthy_item justLoggedIn
         then [RemoveItem ''justLoggedIn'', SetItem ''lastPageLoad'' (show_nat now)]
         else if truthy_item lastLoad \<and> timeDiff_exceeds now lastLoad
              then forced_logout
              else [SetItem ''lastPageLoad'' (show_nat now)])"

text \<open>Local storage after an effect, and after a list of effects in order.\<close>

fun apply_storage :: "effect \<Rightarrow> storage \<Rightarrow> storage" where
  "apply_storage (SetItem k v) ls = ls(k \<mapsto> v)"
| "apply_storage (RemoveItem k) ls = ls(k := None)"
| "apply_storage e ls = ls"

definition run_storage :: "effect list \<Rightarrow> storage \<Rightarrow> storage" where
  "run_storage es ls = fold apply_storage es ls"

definition redirects :: "effect list \<Rightarrow> string list" where
  "redirects es = concat (map (\<lambda>e. case e of Redirect u \<Rightarrow> [u] | _ \<Rightarrow> []) es)"

section \<open>Chat page\<close>

text \<open>
  The state of \<^verbatim>\<open>ChatPage\<close>. A handler reads the values of the render that created
  it (its closure) and performs effects; \<open>apply_effect\<close> applies one effect to the live
  state, setters in the order they are called.
\<close>

record chat_state =
  selectedHub :: string
  previousHub :: "string option"
  messages :: "message list"
  input :: string
  isLoading :: bool
  isHubOperationLoading :: bool
  error :: jsval
  connectionStatus :: connection
  localStorage :: storage

fun apply_effect :: "effect \<Rightarrow> chat_state \<Rightarrow> chat_state" where
  "apply_effect (SetSelectedHub h) s = s\<lparr>selectedHub := h\<rparr>"
| "apply_effect (SetPreviousHub p) s = s\<lparr>previousHub := p\<rparr>"
| "apply_effect (SetMessages ms) s = s\<lparr>messages := ms\<rparr>"
| "apply_effect (AppendMessage m) s = s\<lparr>messages := messages s @ [m]\<rparr>"
| "apply_effect (SetInput i) s = s\<lparr>input := i\<rparr>"
| "apply_effect (SetIsLoading b) s = s\<lparr>isLoading := b\<rparr>"
| "apply_effect (SetIsHubOperationLoading b) s = s\<lparr>isHubOperationLoading := b\<rparr>"
| "apply_effect (SetError e) s = s\<lparr>error := e\<rparr>"
| "apply_effect (SetConnectionStatus c) s = s\<lparr>connectionStatus := c\<rparr>"
| "apply_effect (SetItem k v) s = s\<lparr>localStorage := (localStorage s)(k \<mapsto> v)\<rparr>"
| "apply_effect (RemoveItem k) s = s\<lparr>localStorage := (localStorage s)(k := None)\<rparr>"
| "apply_effect e s = s"

definition run :: "effect list \<Rightarrow> chat_state \<Rightarrow> chat_state" where
  "run es s = fold apply_effect es s"

definition chat_key :: "string \<Rightarrow> string" where
  "chat_key hub = ''chat_'' @ hub"

text \<open>
  The save effect: \<open>stringify\<close> is \<^verbatim>\<open>JSON.stringify\<close> on the message list.
\<close>

definition saveMessages :: "(message list \<Rightarrow> string) \<Rightarrow> chat_state \<Rightarrow> effect list" where
  "saveMessages stringify c =
     (if length (messages c) > 0 \<and> selectedHub c \<noteq> []
      then [SetItem (chat_key (selectedHub c)) (stringify (messages c))]
      else [])"

definition clearChat :: "chat_state \<Rightarrow> effect list" where
  "clearChat c =
     [SetMessages []] @
     (if selectedHub c \<noteq> [] then [RemoveItem (chat_key (selectedHub c))] else []) @
     [Toast_success (Some (JStr ''Chat cleared''))]"

text \<open>\<^verbatim>\<open>v || fallback\<close> with a fallback that is a non-empty string.\<close>

definition or_default :: "jsval \<Rightarrow> string \<Rightarrow> json" where
  "or_default v fallback = (case v of None \<Rightarrow> JStr fallback | Some j \<Rightarrow> if truthy j then j else JStr fallback)"

definition load_url :: "string \<Rightarrow> string" where
  "load_url hub = ''/api/hubs/'' @ hub @ ''/load''"

definition unload_url :: "string \<Rightarrow> string" where
  "unload_url hub = ''/api/hubs/'' @ hub @ ''/unload''"

definition loadHub :: "chat_state \<Rightarrow> fetch_result \<Rightarrow> effect list" where
  "loadHub c r =
     (if selectedHub c = [] then []
      else
        let catch = [Toast_error (Some (JStr ''Failed to load hub'')),
                     SetSelectedHub [], SetPreviousHub None]
        in [SetIsHubOperationLoading True,
            Fetch ''POST'' (load_url (selectedHub c)) None,
            Settled ''POST'' (load_url (selectedHub c))] @
           (case r of
              Rejected \<Rightarrow> catch
            | Response resp \<Rightarrow>
                if ok resp
                then (case body resp of
                        None \<Rightarrow> catch
                      | Some result \<Rightarrow>
                          (case js_get result ''message'' of
                             Inl e \<Rightarrow> catch
                           | Inr m \<Rightarrow>
                               [Toast_success (Some (or_default m
                                  (''Hub '' @ [CHR 0x22] @ selectedHub c @ [CHR 0x22] @ '' loaded successfully''))),
                                Call_fetchLoadedHubs, Call_fetchHubs]))
                else (case body resp of
                        None \<Rightarrow> catch
                      | Some err \<Rightarrow>
                          (case js_get err ''detail'' of
                             Inl e \<Rightarrow> catch
                           | Inr d \<Rightarrow>
                               [Toast_error (Some (or_default d ''Failed to load hub'')),
                                SetSelectedHub [], SetPreviousHub None]))) @
           [SetIsHubOperationLoading False])"

definition unloadHub :: "chat_state \<Rightarrow> string \<Rightarrow> fetch_result \<Rightarrow> effect list" where
  "unloadHub c hubName r =
     (let catch = [Toast_error (Some (JStr ''Failed to unload hub''))]
      in [SetIsHubOperationLoading True,
          Fetch ''POST'' (unload_url hubName) None,
          Settled ''POST'' (unload_url hubName)] @
         (case r of
            Rejected \<Rightarrow> catch
          | Response resp \<Rightarrow>
              if ok resp
              then (case body resp of
                      None \<Rightarrow> catch
                    | Some result \<Rightarrow>
                        (case js_get result ''message'' of
                           Inl e \<Rightarrow> catch
                         | Inr m \<Rightarrow>
                             [Toast_success (Some (or_default m
                                (''Hub '' @ [CHR 0x22] @ hubName @ [CHR 0x22] @ '' unloaded''))),
                              Call_fetchLoadedHubs, Call_fetchHubs] @
                             (if selectedHub c = hubName
                              then [SetSelectedHub [], SetPreviousHub None, SetMessages [],
                                    RemoveItem (chat_key hubName)]
                              else [])))
              else (case body resp of
                      None \<Rightarrow> catch
                    | Some err \<Rightarrow>
                        (case js_get err ''detail'' of
                           Inl e \<Rightarrow> catch
                         | Inr d \<Rightarrow> [Toast_error (Some (or_default d ''Failed to unload hub''))]))) @
         [SetIsHubOperationLoading False])"

text \<open>
  The effect on \<^verbatim>\<open>[selectedHub]\<close>: \<open>r_unload\<close> and \<open>r_load\<close> are what the two requests
  give if they are made. \<^verbatim>\<open>previousHub\<close> is \<^verbatim>\<open>null\<close> or a string; the empty string
  is falsy.
\<close>

definition switchHub :: "chat_state \<Rightarrow> fetch_result \<Rightarrow> fetch_result \<Rightarrow> effect list" where
  "switchHub c r_unload r_load =
     (if selectedHub c \<noteq> [] \<and> Some (selectedHub c) \<noteq> previousHub c
      then (case previousHub c of
              None \<Rightarrow> []
            | Some p \<Rightarrow> if p \<noteq> [] then unloadHub c p r_unload else []) @
           loadHub c r_load @
           [SetPreviousHub (Some (selectedHub c))]
      else [])"

text \<open>
  What one invocation of \<^verbatim>\<open>sendMessage\<close> meets: the outcome of its request and the
  two clock readings, when the user message and when the reply message is built.
\<close>

record attempt_env =
  outcome :: fetch_result
  sent_at :: nat
  replied_at :: nat

text \<open>
  \<^verbatim>\<open>retryCount < 2 && (errorMsg.includes('network') || errorMsg.includes('connection'))\<close>,
  evaluated left to right.
\<close>

definition retry_test :: "nat \<Rightarrow> json \<Rightarrow> js_error + bool" where
  "retry_test retryCount errorMsg =
     (if \<not> retryCount < 2 then Inr False
      else (case js_includes errorMsg ''network'' of
              Inl e \<Rightarrow> Inl e
            | Inr True \<Rightarrow> Inr True
            | Inr False \<Rightarrow> js_includes errorMsg ''connection''))"

text \<open>
  The error message with content \<^verbatim>\<open>`Error: ${errorMsg}`\<close>; \<open>text\<close> is the string the
  template literal has made of \<^verbatim>\<open>errorMsg\<close>.
\<close>

definition errorMessage :: "attempt_env \<Rightarrow> string \<Rightarrow> message" where
  "errorMessage e text =
     \<lparr>msg_id = show_nat (replied_at e + 1), msg_role = Assistant,
      msg_content = Some (JStr (''Error: '' @ text)),
      msg_timestamp = replied_at e, msg_sources = None\<rparr>"

definition userMessage :: "chat_state \<Rightarrow> attempt_env \<Rightarrow> message" where
  "userMessage c e =
     \<lparr>msg_id = show_nat (sent_at e), msg_role = User,
      msg_content = Some (JStr (trim (input c))),
      msg_timestamp = sent_at e, msg_sources = None\<rparr>"

text \<open>
  One invocation of \<^verbatim>\<open>sendMessage(retryCount)\<close>, up to its return. An exception
  anywhere in the \<^verbatim>\<open>try\<close> block, the template literal of the error message included,
  continues in \<open>catch\<close>. A retry is the
  effect \<open>SetTimeout delay (retryCount + 1)\<close>: the timer calls \<^verbatim>\<open>sendMessage\<close> of the
  same closure again with that argument, so the guard is passed again and the user
  message is appended again. The argument is a number, as declared; the Enter key calls
  with the default 0.
\<close>

definition chat_request :: "chat_state \<Rightarrow> json" where
  "chat_request c =
     JObj [(''query'', JStr (trim (input c))),
           (''hub_name'', JStr (selectedHub c)),
           (''include_sources'', JBool True)]"

definition sendMessage :: "chat_state \<Rightarrow> attempt_env \<Rightarrow> nat \<Rightarrow> effect list" where
  "sendMessage c e retryCount =
     (if trim (input c) = [] \<or> selectedHub c = [] \<or> isLoading c then []
      else
        let networkError = ''Network error - please check your connection'';
            catch =
              [SetConnectionStatus Disconnected] @
              (if retryCount < 2 then [SetTimeout 3000 (retryCount + 1)]
               else [SetError (Some (JStr networkError)), Toast_error (Some (JStr networkError)),
                     AppendMessage (errorMessage e networkError)])
        in [SetError None, AppendMessage (userMessage c e), SetInput [], SetIsLoading True,
            Fetch ''POST'' ''/api/chat'' (Some (chat_request c)),
            Settled ''POST'' ''/api/chat''] @
           (case outcome e of
              Rejected \<Rightarrow> catch
            | Response resp \<Rightarrow>
                if ok resp
                then (case body resp of
                        None \<Rightarrow> catch
                      | Some data \<Rightarrow>
                          (case js_get data ''answer'' of
                             Inl x \<Rightarrow> catch
                           | Inr answer \<Rightarrow>
                               [AppendMessage
                                  \<lparr>msg_id = show_nat (replied_at e + 1), msg_role = Assistant,
                                   msg_content = answer, msg_timestamp = replied_at e,
                                   msg_sources = (case js_get data ''sources'' of
                                                    Inl x \<Rightarrow> None | Inr v \<Rightarrow> v)\<rparr>,
                                Call_fetchLoadedHubs,
                                SetConnectionStatus Connected]))
                else (case body resp of
                        None \<Rightarrow> catch
                      | Some errorData \<Rightarrow>
                          (case js_get errorData ''detail'' of
                             Inl x \<Rightarrow> catch
                           | Inr detail \<Rightarrow>
                               let errorMsg = or_default detail ''Failed to get response''
                               in (case retry_test retryCount errorMsg of
                                     Inl x \<Rightarrow> catch
                                   | Inr True \<Rightarrow> [SetTimeout 2000 (retryCount + 1)]
                                   | Inr False \<Rightarrow>
                                       [SetError (Some errorMsg), Toast_error (Some errorMsg)] @
                                       (case js_toString errorMsg of
                                          Inl x \<Rightarrow> catch
                                        | Inr text \<Rightarrow> [AppendMessage (errorMessage e text)]))))) @
           [SetIsLoading False])"

text \<open>The timers an invocation has set: delay and the argument of the scheduled call.\<close>

definition timers :: "effect list \<Rightarrow> (nat \<times> nat) list" where
  "timers es = concat (map (\<lambda>x. case x of SetTimeout d k \<Rightarrow> [(d, k)] | _ \<Rightarrow> []) es)"

lemma retry_test_True: "retry_test n m = Inr True \<Longrightarrow> n < 2"
  by (simp add: retry_test_def split: if_splits)

lemma timers_sendMessage:
  "timers (sendMessage c e n) = [] \<or>
   (n < 2 \<and> (timers (sendMessage c e n) = [(2000, n + 1)]
              \<or> timers (sendMessage c e n) = [(3000, n + 1)]))"
  by (auto simp: sendMessage_def timers_def Let_def dest: retry_test_True
      split: fetch_result.split option.split sum.split bool.split)

text \<open>
  A whole exchange: the invocation with argument \<open>retryCount\<close>, then, when it has set a
  timer, the invocation the timer makes, and so on. \<open>env k\<close> is what the invocation
  with argument \<open>k\<close> meets.
\<close>

function sendMessage_exchange :: "chat_state \<Rightarrow> (nat \<Rightarrow> attempt_env) \<Rightarrow> nat \<Rightarrow> effect list" where
  "sendMessage_exchange c env retryCount =
     (case timers (sendMessage c (env retryCount) retryCount) of
        [] \<Rightarrow> sendMessage c (env retryCount) retryCount
      | (delay, k) # ts \<Rightarrow>
          sendMessage c (env retryCount) retryCount @ sendMessage_exchange c env k)"
  by pat_completeness auto
termination
proof (relation "measure (\<lambda>(c, env, n). 3 - n)")
  show "wf (measure (\<lambda>(c, env, n). 3 - n))" by simp
next
  fix c :: chat_state and env :: "nat \<Rightarrow> attempt_env" and retryCount t ts d k
  assume a: "timers (sendMessage c (env retryCount) retryCount) = t # ts" "(d, k) = t"
  from timers_sendMessage[of c "env retryCount" retryCount] a
  have "retryCount < 2 \<and> k = retryCount + 1" by auto
  then show "((c, env, k), c, env, retryCount) \<in> measure (\<lambda>(c, env, n). 3 - n)"
    by auto
qed

declare sendMessage_exchange.simps [simp del]

text \<open>The argument of the invocation that ends the exchange: one more for each timer set.\<close>

definition last_attempt :: "chat_state \<Rightarrow> (nat \<Rightarrow> attempt_env) \<Rightarrow> nat \<Rightarrow> nat" where
  "last_attempt c env retryCount =
     retryCount + length (timers (sendMessage_exchange c env retryCount))"

text \<open>Projections of a trace: the awaited requests, and the messages appended.\<close>

fun is_request :: "effect \<Rightarrow> bool" where
  "is_request (Fetch m u b) = True"
| "is_request (Settled m u) = True"
| "is_request e = False"

definition appended :: "effect list \<Rightarrow> message list" where
  "appended es = concat (map (\<lambda>x. case x of AppendMessage m \<Rightarrow> [m] | _ \<Rightarrow> []) es)"

text \<open>Effects that keep the message list or append to it.\<close>

fun keeps_messages :: "effect \<Rightarrow> bool" where
  "keeps_messages (SetMessages ms) = False"
| "keeps_messages x = True"

definition assistant_messages :: "message list \<Rightarrow> message list" where
  "assistant_messages ms = filter (\<lambda>m. msg_role m = Assistant) ms"

text \<open>
  The two failures that are retried: a failed response whose error text contains
  \<^verbatim>\<open>network\<close> or \<^verbatim>\<open>connection\<close>, and a request that is rejected.
\<close>

definition keyword_matched :: "json \<Rightarrow> bool" where
  "keyword_matched errorMsg =
     (js_includes errorMsg ''network'' = Inr True
      \<or> (js_includes errorMsg ''network'' = Inr False
         \<and> js_includes errorMsg ''connection'' = Inr True))"

definition keyword_error :: "attempt_env \<Rightarrow> bool" where
  "keyword_error e =
     (case outcome e of
        Rejected \<Rightarrow> False
      | Response resp \<Rightarrow>
          \<not> ok resp \<and>
          (case body resp of
             None \<Rightarrow> False
           | Some errorData \<Rightarrow>
               (case js_get errorData ''detail'' of
                  Inl x \<Rightarrow> False
                | Inr detail \<Rightarrow> keyword_matched (or_default detail ''Failed to get response''))))"

definition network_exception :: "attempt_env \<Rightarrow> bool" where
  "network_exception e = (outcome e = Rejected)"

text \<open>The delay of the retry after a failure of one of the two kinds.\<close>

definition retry_delay :: "attempt_env \<Rightarrow> nat" where
  "retry_delay e = (if network_exception e then 3000 else 2000)"

text \<open>
  Local storage of the chat page. A step is one storage effect of one handler of the
  page, for any closure and any outcome of its requests; handlers that run concurrently
  interleave their steps.
\<close>

inductive chat_storage_step :: "(message list \<Rightarrow> string) \<Rightarrow> storage \<Rightarrow> storage \<Rightarrow> bool"
  for stringify :: "message list \<Rightarrow> string" where
  step_authCheck: "x \<in> set (ChatPage_authCheck now ls0) \<Longrightarrow>
     chat_storage_step stringify ls (apply_storage x ls)"
| step_saveMessages: "x \<in> set (saveMessages stringify c) \<Longrightarrow>
     chat_storage_step stringify ls (apply_storage x ls)"
| step_switchHub: "x \<in> set (switchHub c r_unload r_load) \<Longrightarrow>
     chat_storage_step stringify ls (apply_storage x ls)"
| step_loadHub: "x \<in> set (loadHub c r) \<Longrightarrow>
     chat_storage_step stringify ls (apply_storage x ls)"
| step_unloadHub: "x \<in> set (unloadHub c hubName r) \<Longrightarrow>
     chat_storage_step stringify ls (apply_storage x ls)"
| step_clearChat: "x \<in> set (clearChat c) \<Longrightarrow>
     chat_storage_step stringify ls (apply_storage x ls)"
| step_sendMessage: "x \<in> set (sendMessage c e retryCount) \<Longrightarrow>
     chat_storage_step stringify ls (apply_storage x ls)"

text \<open>The storages reached from \<open>ls\<close> by any number of steps.\<close>

inductive chat_storage_reach :: "(message list \<Rightarrow> string) \<Rightarrow> storage \<Rightarrow> storage \<Rightarrow> bool"
  for stringify :: "message list \<Rightarrow> string" where
  reach_refl: "chat_storage_reach stringify ls ls"
| reach_step: "chat_storage_reach stringify ls ls' \<Longrightarrow> chat_storage_step stringify ls' ls'' \<Longrightarrow>
     chat_storage_reach stringify ls ls''"

text \<open>Every chat history entry holds the serialization of a non-empty message list.\<close>

definition chat_history_ok :: "(message list \<Rightarrow> string) \<Rightarrow> storage \<Rightarrow> bool" where
  "chat_history_ok stringify ls =
     (\<forall>hub v. ls (chat_key hub) = Some v \<longrightarrow> (\<exists>ms. ms \<noteq> [] \<and> v = stringify ms))"

text \<open>An effect that writes no chat history entry, or writes the serialization of a non-empty list.\<close>

fun safe_write :: "(message list \<Rightarrow> string) \<Rightarrow> effect \<Rightarrow> bool" where
  "safe_write stringify (SetItem k v) =
     (\<forall>hub. k = chat_key hub \<longrightarrow> (\<exists>ms. ms \<noteq> [] \<and> v = stringify ms))"
| "safe_write stringify x = True"

section \<open>Hub card and dashboard: failed responses\<close>

record hub =
  hub_name :: string
  hub_status :: string
  file_count :: nat
  created_at :: string
  last_synced :: string
  sharepoint_linked :: bool
  auto_sync_enabled :: bool

text \<open>\<^verbatim>\<open>err.msg || err.message\<close>\<close>

definition element_message :: "json \<Rightarrow> js_error + jsval" where
  "element_message err =
     (case js_get err ''msg'' of
        Inl e \<Rightarrow> Inl e
      | Inr m \<Rightarrow> if truthy_val m then Inr m else js_get err ''message'')"

text \<open>
  The block that \<^verbatim>\<open>handleSync\<close>, \<^verbatim>\<open>handleLoadUnload\<close> and \<^verbatim>\<open>handleDelete\<close> share:
  \<open>err\<close> is the parsed body, \<open>fallback\<close> the initial value of \<^verbatim>\<open>errorMessage\<close>.
\<close>

definition card_errorMessage :: "string \<Rightarrow> json \<Rightarrow> js_error + json" where
  "card_errorMessage fallback err =
     (case js_get err ''detail'' of
        Inl e \<Rightarrow> Inl e
      | Inr None \<Rightarrow> Inr (JStr fallback)
      | Inr (Some detail) \<Rightarrow>
          if \<not> truthy detail then Inr (JStr fallback)
          else (case detail of
                  JArr errs \<Rightarrow>
                    (case map_throw element_message errs of
                       Inl e \<Rightarrow> Inl e
                     | Inr ms \<Rightarrow>
                         (case js_join '', '' ms of
                            Inl e \<Rightarrow> Inl e
                          | Inr joined \<Rightarrow> Inr (JStr joined)))
                | JStr s \<Rightarrow> Inr (JStr s)
                | _ \<Rightarrow>
                    (case js_get detail ''msg'' of
                       Inl e \<Rightarrow> Inl e
                     | Inr None \<Rightarrow> Inr (JStr fallback)
                     | Inr (Some m) \<Rightarrow> if truthy m then Inr m else Inr (JStr fallback))))"

definition handleSync :: "hub \<Rightarrow> fetch_result \<Rightarrow> effect list" where
  "handleSync h r =
     (if \<not> sharepoint_linked h then []
      else
        let url = ''/api/hubs/'' @ hub_name h @ ''/sync'';
            catch = [Toast_error (Some (JStr ''Sync failed''))]
        in [SetIsLoading True, Fetch ''POST'' url None, Settled ''POST'' url] @
           (case r of
              Rejected \<Rightarrow> catch
            | Response resp \<Rightarrow>
                if ok resp
                then (case body resp of
                        None \<Rightarrow> catch
                      | Some result \<Rightarrow>
                          (case js_get result ''message'' of
                             Inl e \<Rightarrow> catch
                           | Inr m \<Rightarrow> [Toast_success m, Call_onUpdate, Call_checkLoadedStatus]))
                else (case body resp of
                        None \<Rightarrow> catch
                      | Some err \<Rightarrow>
                          (case card_errorMessage ''Sync failed'' err of
                             Inl e \<Rightarrow> catch
                           | Inr m \<Rightarrow> [Toast_error (Some m)]))) @
           [SetIsLoading False])"

definition handleLoadUnload :: "hub \<Rightarrow> bool \<Rightarrow> fetch_result \<Rightarrow> effect list" where
  "handleLoadUnload h isLoaded r =
     (let endpoint = (if isLoaded then ''unload'' else ''load'');
          url = ''/api/hubs/'' @ hub_name h @ ''/'' @ endpoint;
          catch = [Toast_error (Some (JStr ''Operation failed''))]
      in [SetIsLoading True, Fetch ''POST'' url None, Settled ''POST'' url] @
         (case r of
            Rejected \<Rightarrow> catch
          | Response resp \<Rightarrow>
              if ok resp
              then (case body resp of
                      None \<Rightarrow> catch
                    | Some result \<Rightarrow>
                        (case js_get result ''message'' of
                           Inl e \<Rightarrow> catch
                         | Inr m \<Rightarrow> [Toast_success m, SetIsLoaded (\<not> isLoaded), Call_onUpdate]))
              else (case body resp of
                      None \<Rightarrow> catch
                    | Some err \<Rightarrow>
                        (case card_errorMessage (endpoint @ '' failed'') err of
                           Inl e \<Rightarrow> catch
                         | Inr m \<Rightarrow> [Toast_error (Some m)]))) @
         [SetIsLoading False])"

text \<open>\<open>confirmed\<close> is the answer to the \<^verbatim>\<open>confirm\<close> dialog.\<close>

definition handleDelete :: "hub \<Rightarrow> bool \<Rightarrow> fetch_result \<Rightarrow> effect list" where
  "handleDelete h confirmed r =
     (if \<not> confirmed then []
      else
        let url = ''/api/hubs/'' @ hub_name h;
            catch = [Toast_error (Some (JStr ''Delete failed''))]
        in [Fetch ''DELETE'' url None, Settled ''DELETE'' url] @
           (case r of
              Rejected \<Rightarrow> catch
            | Response resp \<Rightarrow>
                if ok resp
                then [Toast_success (Some (JStr ''Hub deleted successfully'')), Call_onUpdate]
                else (case body resp of
                        None \<Rightarrow> catch
                      | Some err \<Rightarrow>
                          (case card_errorMessage ''Delete failed'' err of
                             Inl e \<Rightarrow> catch
                           | Inr m \<Rightarrow> [Toast_error (Some m)]))))"

text \<open>
  \<^verbatim>\<open>handleCreateHub\<close> of the dashboard. \<open>stringify\<close> is \<^verbatim>\<open>JSON.stringify\<close>. The data
  is a \<^verbatim>\<open>FormData\<close> (its entries, a file entry by its name) or the object of the
  cloud-link form.
\<close>

datatype hub_data = FormData "(string \<times> string) list" | Payload json

text \<open>\<^verbatim>\<open>err.msg || err.message || JSON.stringify(err)\<close>\<close>

definition create_element_message :: "(json \<Rightarrow> string) \<Rightarrow> json \<Rightarrow> js_error + jsval" where
  "create_element_message stringify err =
     (case js_get err ''msg'' of
        Inl e \<Rightarrow> Inl e
      | Inr m \<Rightarrow>
          if truthy_val m then Inr m
          else (case js_get err ''message'' of
                  Inl e \<Rightarrow> Inl e
                | Inr m2 \<Rightarrow> if truthy_val m2 then Inr m2 else Inr (Some (JStr (stringify err)))))"

text \<open>The body of the inner \<^verbatim>\<open>try\<close>, after the body has been parsed to \<open>err\<close>.\<close>

definition create_errorMessage :: "(json \<Rightarrow> string) \<Rightarrow> json \<Rightarrow> js_error + json" where
  "create_errorMessage stringify err =
     (case js_get err ''detail'' of
        Inl e \<Rightarrow> Inl e
      | Inr d \<Rightarrow>
          (case (if truthy_val d then d else None) of
             Some detail \<Rightarrow>
               (case detail of
                  JArr errs \<Rightarrow>
                    (case map_throw (create_element_message stringify) errs of
                       Inl e \<Rightarrow> Inl e
                     | Inr ms \<Rightarrow>
                         (case js_join '', '' ms of
                            Inl e \<Rightarrow> Inl e
                          | Inr joined \<Rightarrow> Inr (JStr joined)))
                | JStr s \<Rightarrow> Inr (JStr s)
                | _ \<Rightarrow>
                    (case js_get detail ''msg'' of
                       Inl e \<Rightarrow> Inl e
                     | Inr None \<Rightarrow> Inr (JStr (stringify detail))
                     | Inr (Some m) \<Rightarrow> if truthy m then Inr m else Inr (JStr (stringify detail))))
           | None \<Rightarrow>
               (case js_get err ''message'' of
                  Inl e \<Rightarrow> Inl e
                | Inr None \<Rightarrow> Inr (JStr (stringify err))
                | Inr (Some m) \<Rightarrow> if truthy m then Inr m else Inr (JStr (stringify err)))))"

definition server_error :: "response \<Rightarrow> string" where
  "server_error resp = ''Server error ('' @ show_nat (status resp) @ ''): '' @ statusText resp"

definition handleCreateHub :: "(json \<Rightarrow> string) \<Rightarrow> hub_data \<Rightarrow> fetch_result \<Rightarrow> effect list" where
  "handleCreateHub stringify hubData r =
     (let catch = [Toast_error (Some (JStr ''Failed to create hub''))]
      in (case hubData of
            FormData entries \<Rightarrow>
              [Fetch ''POST'' ''/api/hubs/from-upload''
                 (Some (JObj (map (\<lambda>(k, v). (k, JStr v)) entries))),
               Settled ''POST'' ''/api/hubs/from-upload'']
          | Payload p \<Rightarrow>
              [Fetch ''POST'' ''/api/hubs/from-sharepoint'' (Some p),
               Settled ''POST'' ''/api/hubs/from-sharepoint'']) @
         (case r of
            Rejected \<Rightarrow> catch
          | Response resp \<Rightarrow>
              if ok resp
              then (case body resp of
                      None \<Rightarrow> catch
                    | Some result \<Rightarrow>
                        [Toast_success (Some (JStr ''Hub created successfully!'')),
                         SetShowCreateModal False, Call_fetchHubs])
              else [Toast_error (Some
                      (case body resp of
                         None \<Rightarrow> JStr (server_error resp)
                       | Some err \<Rightarrow>
                           (case create_errorMessage stringify err of
                              Inl e \<Rightarrow> JStr (server_error resp)
                            | Inr m \<Rightarrow> m)))]))"

text \<open>An object whose \<^verbatim>\<open>msg\<close> is the non-empty string \<open>m\<close>.\<close>

fun has_msg :: "json \<Rightarrow> string \<Rightarrow> bool" where
  "has_msg (JObj kvs) m = (map_of (rev kvs) ''msg'' = Some (JStr m) \<and> m \<noteq> [])"
| "has_msg v m = False"

text \<open>What \<^verbatim>\<open>toast.error\<close> was called with, in order.\<close>

definition error_toasts :: "effect list \<Rightarrow> jsval list" where
  "error_toasts es = concat (map (\<lambda>x. case x of Toast_error m \<Rightarrow> [m] | _ \<Rightarrow> []) es)"

text \<open>The error notices of the three handlers of the hub card, for one hub and one outcome.\<close>

definition lifecycle_error_toasts :: "hub \<Rightarrow> bool \<Rightarrow> fetch_result \<Rightarrow> jsval list list" where
  "lifecycle_error_toasts h isLoaded r =
     [error_toasts (handleSync h r), error_toasts (handleLoadUnload h isLoaded r),
      error_toasts (handleDelete h True r)]"

section \<open>CreateHubModal: the upload zone and the size label\<close>

record js_file =
  file_name :: string
  file_size :: nat

datatype toast = ToastSuccess string | ToastError string

definition maxSize :: nat where
  "maxSize = 50 * 1024 * 1024"

text \<open>
  \<^verbatim>\<open>onDrop(acceptedFiles, rejectedFiles)\<close> of the dropzone. The state update
  \<^verbatim>\<open>setUploadedFiles(prev => [...prev, ...validFiles])\<close> is applied to the pending list
  \<open>prev\<close>; the result is the new pending list and the notices in the order they are
  raised.
\<close>

definition onDrop :: "js_file list \<Rightarrow> 'r list \<Rightarrow> js_file list \<Rightarrow> js_file list \<times> toast list" where
  "onDrop acceptedFiles rejectedFiles prev =
     (let validFiles = filter (\<lambda>f. file_size f \<le> maxSize) acceptedFiles;
          oversizedFiles = filter (\<lambda>f. file_size f > maxSize) acceptedFiles
      in ((if length validFiles > 0 then prev @ validFiles else prev),
          (if length oversizedFiles > 0
           then [ToastError (show_nat (length oversizedFiles) @ '' file(s) too large (max 50MB each)'')]
           else []) @
          (if length rejectedFiles > 0
           then [ToastError (show_nat (length rejectedFiles) @ '' file(s) rejected (unsupported format)'')]
           else []) @
          (if length validFiles > 0
           then [ToastSuccess (''Added '' @ show_nat (length validFiles) @ '' file(s)'')]
           else [])))"

text \<open>The notices of a drop that report oversize files, with the count each one carries.\<close>

definition is_oversize_notice :: "toast \<Rightarrow> bool" where
  "is_oversize_notice t =
     (case t of
        ToastError s \<Rightarrow> suffix '' file(s) too large (max 50MB each)'' s
      | ToastSuccess s \<Rightarrow> False)"

text \<open>
  \<^verbatim>\<open>formatFileSize\<close>. \<^verbatim>\<open>Math.log\<close> is the natural logarithm on positive numbers and
  gives no finite number otherwise (\<open>None\<close>); an array read outside its bounds is
  \<^verbatim>\<open>undefined\<close> (\<open>None\<close>). The result is the literal for zero, or the scaled value
  with the unit that was looked up; rounding the value to two decimals is left out.
\<close>

definition Math_log :: "real \<Rightarrow> real option" where
  "Math_log x = (if 0 < x then Some (ln x) else None)"

definition js_nth :: "'a list \<Rightarrow> int \<Rightarrow> 'a option" where
  "js_nth xs i = (if 0 \<le> i \<and> i < int (length xs) then Some (xs ! nat i) else None)"

definition sizes :: "string list" where
  "sizes = [''Bytes'', ''KB'', ''MB'', ''GB'']"

definition size_index :: "nat \<Rightarrow> int option" where
  "size_index bytes =
     (case Math_log (real bytes) of
        None \<Rightarrow> None
      | Some l \<Rightarrow> (case Math_log 1024 of None \<Rightarrow> None | Some lk \<Rightarrow> Some \<lfloor>l / lk\<rfloor>))"

text \<open>The index when the quotient of the two logarithms is computed with relative error \<open>d\<close>.\<close>

definition size_index_rounded :: "real \<Rightarrow> nat \<Rightarrow> int" where
  "size_index_rounded d bytes = \<lfloor>ln (real bytes) / ln 1024 * (1 + d)\<rfloor>"

datatype size_label = Label string | Scaled real "string option"

definition formatFileSize :: "nat \<Rightarrow> size_label" where
  "formatFileSize bytes =
     (if bytes = 0 then Label ''0 Bytes''
      else (case size_index bytes of
              None \<Rightarrow> Scaled 0 None
            | Some i \<Rightarrow> Scaled (real bytes / (1024 powr real_of_int i)) (js_nth sizes i)))"

section \<open>Sample inputs\<close>

definition sample_chat :: chat_state where
  "sample_chat =
     \<lparr>selectedHub = ''Specs'', previousHub = Some ''Legal'', messages = [],
      input = '' What is clause 4? '', isLoading = False, isHubOperationLoading = False,
      error = None, connectionStatus = Connected,
      localStorage = [chat_key ''Legal'' \<mapsto> ''[1]'', chat_key ''Specs'' \<mapsto> ''[2]'',
                      ''user'' \<mapsto> ''u'']\<rparr>"

definition sample_ok :: fetch_result where
  "sample_ok = Response \<lparr>ok = True, status = 200, statusText = ''OK'',
                          body = Some (JObj [(''message'', JStr ''done'')])\<rparr>"

definition sample_rejected :: attempt_env where
  "sample_rejected = \<lparr>outcome = Rejected, sent_at = 7, replied_at = 8\<rparr>"

definition sample_answered :: attempt_env where
  "sample_answered =
     \<lparr>outcome = Response \<lparr>ok = True, status = 200, statusText = ''OK'',
                           body = Some (JObj [(''answer'', JStr ''Clause 4 covers termination.''),
                                              (''sources'', JArr [JObj [(''content'', JStr ''4. Termination'')]])])\<rparr>,
      sent_at = 20, replied_at = 30\<rparr>"

definition sample_keyword :: attempt_env where
  "sample_keyword =
     \<lparr>outcome = Response \<lparr>ok = False, status = 503, statusText = ''Service Unavailable'',
                           body = Some (JObj [(''detail'', JStr ''upstream connection lost'')])\<rparr>,
      sent_at = 7, replied_at = 8\<rparr>"

definition sample_hub :: hub where
  "sample_hub = \<lparr>hub_name = ''Legal'', hub_status = ''ready'', file_count = 3,
                 created_at = ''2024-01-01'', last_synced = [], sharepoint_linked = True,
                 auto_sync_enabled = False\<rparr>"

definition sample_unparseable :: response where
  "sample_unparseable = \<lparr>ok = False, status = 502, statusText = ''Bad Gateway'', body = None\<rparr>"

definition sample_validation :: response where
  "sample_validation =
     \<lparr>ok = False, status = 422, statusText = ''Unprocessable Entity'',
      body = Some (JObj [(''detail'',
               JArr [JObj [(''loc'', JStr ''hub_name''), (''msg'', JStr ''field required'')],
                     JObj [(''msg'', JStr ''bad link'')]])])\<rparr>"

text \<open>A stand-in serialization, for evaluation.\<close>

definition sample_stringify :: "message list \<Rightarrow> string" where
  "sample_stringify ms = ''['' @ show_nat (length ms) @ '']''"

definition sample_files :: "js_file list" where
  "sample_files =
     [\<lparr>file_name = ''a.pdf'', file_size = 10\<rparr>,
      \<lparr>file_name = ''b.zip'', file_size = 62914560\<rparr>,
      \<lparr>file_name = ''c.docx'', file_size = 52428800\<rparr>]"

section \<open>Properties\<close>

subsection \<open>Running effects\<close>

lemma run_append: "run (xs @ ys) s = run ys (run xs s)"
  by (simp add: run_def)

lemma run_Nil: "run [] s = s"
  by (simp add: run_def)

lemma run_Cons: "run (x # xs) s = run xs (apply_effect x s)"
  by (simp add: run_def)

lemma chat_key_inj: "chat_key X = chat_key Y \<longleftrightarrow> X = Y"
  by (simp add: chat_key_def)

subsection \<open>Session guard\<close>

lemma parseInt_1000: "parseInt ''1000'' = Some 1000"
  by (simp add: parseInt_def strip_leading.simps white_space_def is_digit_def digit_val_def
        digits_value_def Let_def)

text \<open>
  C5. The chat page is mounted by a navigation (not a reload) 4000 ms after the last
  stamp, with no just-logged-in flag: its guard clears the session flags and redirects
  to the login page. The guard of the dashboard, on the same input, stamps the time and
  allows the page.
\<close>

theorem ChatPage_authCheck_logs_out_on_navigation:
  "ChatPage_authCheck 5000 [''lastPageLoad'' \<mapsto> ''1000'', ''isAuthenticated'' \<mapsto> ''true'']
     = forced_logout
   \<and> redirects (ChatPage_authCheck 5000 [''lastPageLoad'' \<mapsto> ''1000'', ''isAuthenticated'' \<mapsto> ''true''])
     = [''/login'']
   \<and> DashboardPage_authCheck 5000 (Some ''navigate'')
        [''lastPageLoad'' \<mapsto> ''1000'', ''isAuthenticated'' \<mapsto> ''true'']
     = [SetItem ''lastPageLoad'' ''5000'']"
  by (simp add: ChatPage_authCheck_def DashboardPage_authCheck_def truthy_item_def
      timeDiff_exceeds_def parseInt_1000 forced_logout_def redirects_def show_nat.simps digit_def)

text \<open>When each guard forces the logout, the just-logged-in flag not being set.\<close>

lemma DashboardPage_authCheck_logout_iff:
  "\<not> truthy_item (ls ''justLoggedIn'') \<Longrightarrow>
   (DashboardPage_authCheck now nav ls = forced_logout)
     = (nav = Some ''reload'' \<and> truthy_item (ls ''lastPageLoad'') \<and> timeDiff_exceeds now (ls ''lastPageLoad''))"
  by (auto simp: DashboardPage_authCheck_def forced_logout_def Let_def split: if_splits)

lemma ChatPage_authCheck_logout_iff:
  "\<not> truthy_item (ls ''justLoggedIn'') \<Longrightarrow>
   (ChatPage_authCheck now ls = forced_logout)
     = (truthy_item (ls ''lastPageLoad'') \<and> timeDiff_exceeds now (ls ''lastPageLoad''))"
  by (auto simp: ChatPage_authCheck_def forced_logout_def Let_def split: if_splits)

subsection \<open>Sending a message\<close>

lemma appended_append: "appended (xs @ ys) = appended xs @ appended ys"
  by (simp add: appended_def)

lemma timers_append: "timers (xs @ ys) = timers xs @ timers ys"
  by (simp add: timers_def)

lemma messages_run:
  "list_all keeps_messages es \<Longrightarrow> messages (run es s) = messages s @ appended es"
proof (induction es arbitrary: s)
  case Nil
  then show ?case by (simp add: run_Nil appended_def)
next
  case (Cons x es)
  then show ?case by (cases x) (simp_all add: run_Cons appended_def)
qed

lemma keeps_messages_sendMessage: "list_all keeps_messages (sendMessage c e n)"
  by (simp add: sendMessage_def Let_def
      split: fetch_result.split option.split sum.split bool.split)

lemma keeps_messages_exchange: "list_all keeps_messages (sendMessage_exchange c env n)"
proof (induction c env n rule: sendMessage_exchange.induct)
  case (1 c env n)
  show ?case
  proof (cases "timers (sendMessage c (env n) n)")
    case Nil
    then show ?thesis
      by (simp add: sendMessage_exchange.simps[of c env n] keeps_messages_sendMessage)
  next
    case (Cons t ts)
    obtain d k where t: "t = (d, k)" by (cases t)
    from 1[OF Cons t[symmetric]] Cons t show ?thesis
      by (simp add: sendMessage_exchange.simps[of c env n] keeps_messages_sendMessage)
  qed
qed

lemma sendMessage_appended:
  assumes "trim (input c) \<noteq> []" "selectedHub c \<noteq> []" "\<not> isLoading c"
  shows "(timers (sendMessage c e n) = [] \<and>
            (\<exists>a. appended (sendMessage c e n) = [userMessage c e, a] \<and> msg_role a = Assistant))
         \<or> (timers (sendMessage c e n) \<noteq> [] \<and> n < 2 \<and> appended (sendMessage c e n) = [userMessage c e])"
  using assms
  by (auto simp: sendMessage_def timers_def appended_def Let_def errorMessage_def dest: retry_test_True
      split: fetch_result.split option.split sum.split bool.split)

lemma sendMessage_starts:
  assumes "trim (input c) \<noteq> []" "selectedHub c \<noteq> []" "\<not> isLoading c"
  shows "take 6 (sendMessage c e n) =
           [SetError None, AppendMessage (userMessage c e), SetInput [], SetIsLoading True,
            Fetch ''POST'' ''/api/chat'' (Some (chat_request c)), Settled ''POST'' ''/api/chat'']"
  using assms by (simp add: sendMessage_def Let_def)

lemma exchange_starts:
  assumes "trim (input c) \<noteq> []" "selectedHub c \<noteq> []" "\<not> isLoading c"
  shows "take 6 (sendMessage_exchange c env n) =
           [SetError None, AppendMessage (userMessage c (env n)), SetInput [], SetIsLoading True,
            Fetch ''POST'' ''/api/chat'' (Some (chat_request c)), Settled ''POST'' ''/api/chat'']"
proof -
  have l: "6 \<le> length (sendMessage c (env n) n)"
    using assms by (simp add: sendMessage_def Let_def)
  show ?thesis
    using l sendMessage_starts[OF assms, of "env n" n]
    by (cases "timers (sendMessage c (env n) n)")
       (auto simp: sendMessage_exchange.simps[of c env n])
qed

lemma exchange_timers_bound:
  "length (timers (sendMessage_exchange c env n)) \<le> 2 - n"
proof (induction c env n rule: sendMessage_exchange.induct)
  case (1 c env n)
  show ?case
  proof (cases "timers (sendMessage c (env n) n)")
    case Nil
    then show ?thesis by (simp add: sendMessage_exchange.simps[of c env n])
  next
    case (Cons t ts)
    obtain d k where t: "t = (d, k)" by (cases t)
    from Cons t timers_sendMessage[of c "env n" n]
    have n: "n < 2" and k: "k = n + 1" and ts: "ts = []" by auto
    from "1.IH"[OF Cons t[symmetric]] Cons t n k ts show ?thesis
      by (simp add: sendMessage_exchange.simps[of c env n] timers_append)
  qed
qed

lemma keyword_error_retry:
  assumes "trim (input c) \<noteq> []" "selectedHub c \<noteq> []" "\<not> isLoading c"
    and "n < 2" and "keyword_error e"
  shows "timers (sendMessage c e n) = [(2000, n + 1)]
         \<and> appended (sendMessage c e n) = [userMessage c e]"
  using assms
  by (auto simp: sendMessage_def timers_def appended_def Let_def keyword_error_def
        keyword_matched_def retry_test_def
      split: fetch_result.splits option.splits sum.splits bool.splits)

lemma network_exception_retry:
  assumes "trim (input c) \<noteq> []" "selectedHub c \<noteq> []" "\<not> isLoading c"
    and "n < 2" and "network_exception e"
  shows "timers (sendMessage c e n) = [(3000, n + 1)]
         \<and> appended (sendMessage c e n) = [userMessage c e]"
  using assms
  by (simp add: sendMessage_def timers_def appended_def Let_def network_exception_def)

lemma retries_exhausted:
  assumes "trim (input c) \<noteq> []" "selectedHub c \<noteq> []" "\<not> isLoading c"
    and "2 \<le> n" and "keyword_error e \<or> network_exception e"
  shows "timers (sendMessage c e n) = []
         \<and> (\<exists>m. appended (sendMessage c e n) = [userMessage c e, errorMessage e m])"
  using assms
  by (auto simp: sendMessage_def timers_def appended_def Let_def keyword_error_def
        network_exception_def retry_test_def
      split: fetch_result.splits option.splits sum.splits bool.splits)


lemma assistant_messages_append:
  "assistant_messages (xs @ ys) = assistant_messages xs @ assistant_messages ys"
  by (simp add: assistant_messages_def)

lemma sample_guard:
  "trim (input sample_chat) \<noteq> []" "selectedHub sample_chat \<noteq> []" "\<not> isLoading sample_chat"
proof -
  have "trim '' What is clause 4? '' = ''What is clause 4?''" by code_simp
  then show "trim (input sample_chat) \<noteq> []" by (simp add: sample_chat_def)
qed (simp_all add: sample_chat_def)

lemma sample_keyword_error: "keyword_error sample_keyword"
  by (simp add: keyword_error_def sample_keyword_def or_default_def keyword_matched_def)

lemma exchange_unfold3:
  assumes "timers (sendMessage c (env 0) 0) = [(d0, 1)]"
    and "timers (sendMessage c (env 1) 1) = [(d1, 2)]"
    and "timers (sendMessage c (env 2) 2) = []"
  shows "sendMessage_exchange c env 0
           = sendMessage c (env 0) 0 @ sendMessage c (env 1) 1 @ sendMessage c (env 2) 2"
proof -
  have 2: "sendMessage_exchange c env 2 = sendMessage c (env 2) 2"
    by (subst sendMessage_exchange.simps) (use assms(3) in simp)
  have 1: "sendMessage_exchange c env 1 = sendMessage c (env 1) 1 @ sendMessage c (env 2) 2"
    by (subst sendMessage_exchange.simps) (use assms(2) 2 in simp)
  show ?thesis
    by (subst sendMessage_exchange.simps) (use assms(1) 1 in simp)
qed

lemma sample_rejected_exchange:
  "sendMessage_exchange sample_chat (\<lambda>k. sample_rejected) 0
     = sendMessage sample_chat sample_rejected 0 @ sendMessage sample_chat sample_rejected 1
       @ sendMessage sample_chat sample_rejected 2"
proof -
  have n: "network_exception sample_rejected"
    by (simp add: network_exception_def sample_rejected_def)
  show ?thesis
    using network_exception_retry[OF sample_guard _ n, of 0]
          network_exception_retry[OF sample_guard _ n, of 1]
          retries_exhausted[OF sample_guard, of 2 sample_rejected] n
    by (intro exchange_unfold3[where ?d0.0 = 3000 and ?d1.0 = 3000]) simp_all
qed

lemma sample_keyword_exchange:
  "sendMessage_exchange sample_chat (\<lambda>k. sample_keyword) 0
     = sendMessage sample_chat sample_keyword 0 @ sendMessage sample_chat sample_keyword 1
       @ sendMessage sample_chat sample_keyword 2"
  using keyword_error_retry[OF sample_guard _ sample_keyword_error, of 0]
        keyword_error_retry[OF sample_guard _ sample_keyword_error, of 1]
        retries_exhausted[OF sample_guard, of 2 sample_keyword] sample_keyword_error
  by (intro exchange_unfold3[where ?d0.0 = 2000 and ?d1.0 = 2000]) simp_all

lemma js_get_not_null: "data \<noteq> JNull \<Longrightarrow> \<exists>v. js_get data key = Inr v"
  by (cases data) simp_all

lemma exchange_shape:
  "trim (input c) \<noteq> [] \<Longrightarrow> selectedHub c \<noteq> [] \<Longrightarrow> \<not> isLoading c \<Longrightarrow>
   timers (sendMessage c (env (last_attempt c env n)) (last_attempt c env n)) = []
   \<and> appended (sendMessage_exchange c env n)
       = map (\<lambda>j. userMessage c (env j)) [n ..< last_attempt c env n]
         @ appended (sendMessage c (env (last_attempt c env n)) (last_attempt c env n))"
proof (induction c env n rule: sendMessage_exchange.induct)
  case (1 c env n)
  note g = "1.prems"
  show ?case
  proof (cases "timers (sendMessage c (env n) n)")
    case Nil
    then have e: "sendMessage_exchange c env n = sendMessage c (env n) n"
      by (subst sendMessage_exchange.simps) simp
    have l: "last_attempt c env n = n" by (simp add: last_attempt_def e Nil)
    show ?thesis unfolding l using Nil by (simp add: e)
  next
    case (Cons t ts)
    obtain d k where t: "t = (d, k)" by (cases t)
    from Cons t timers_sendMessage[of c "env n" n]
    have n: "n < 2" and k: "k = n + 1" and ts: "ts = []" by auto
    from Cons sendMessage_appended[OF g, of "env n" n]
    have one: "appended (sendMessage c (env n) n) = [userMessage c (env n)]" by auto
    have e: "sendMessage_exchange c env n = sendMessage c (env n) n @ sendMessage_exchange c env (n + 1)"
      by (subst sendMessage_exchange.simps) (use Cons t k in simp)
    have l: "last_attempt c env n = last_attempt c env (n + 1)"
      using Cons t ts by (simp add: last_attempt_def e timers_append)
    have lt: "n < last_attempt c env (n + 1)" by (simp add: last_attempt_def)
    from "1.IH"[OF Cons t[symmetric] g] k
    have ih: "timers (sendMessage c (env (last_attempt c env (n + 1))) (last_attempt c env (n + 1))) = []"
      "appended (sendMessage_exchange c env (n + 1))
         = map (\<lambda>j. userMessage c (env j)) [n + 1 ..< last_attempt c env (n + 1)]
           @ appended (sendMessage c (env (last_attempt c env (n + 1))) (last_attempt c env (n + 1)))"
      by simp_all
    show ?thesis
      unfolding l using ih one lt
      by (simp add: e appended_append upt_conv_Cons)
  qed
qed

lemma final_invocation:
  assumes "trim (input c) \<noteq> []" and "selectedHub c \<noteq> []" and "\<not> isLoading c"
    and "timers (sendMessage c e n) = []"
  shows "\<exists>a. appended (sendMessage c e n) = [userMessage c e, a]
     \<and> msg_role a = Assistant
     \<and> msg_id a = show_nat (replied_at e + 1)
     \<and> msg_timestamp a = replied_at e
     \<and> (\<forall>resp data. outcome e = Response resp \<and> ok resp \<and> body resp = Some data \<and> data \<noteq> JNull \<longrightarrow>
           js_get data ''answer'' = Inr (msg_content a) \<and> js_get data ''sources'' = Inr (msg_sources a))
     \<and> (\<forall>resp errorData detail text.
           outcome e = Response resp \<and> \<not> ok resp \<and> body resp = Some errorData
           \<and> js_get errorData ''detail'' = Inr detail
           \<and> retry_test n (or_default detail ''Failed to get response'') = Inr False
           \<and> js_toString (or_default detail ''Failed to get response'') = Inr text \<longrightarrow>
           msg_content a = Some (JStr (''Error: '' @ text)) \<and> msg_sources a = None)
     \<and> (outcome e = Rejected \<longrightarrow>
           msg_content a = Some (JStr ''Error: Network error - please check your connection'')
           \<and> msg_sources a = None)
     \<and> (\<forall>resp. outcome e = Response resp \<and> (body resp = None \<or> body resp = Some JNull) \<longrightarrow>
           msg_content a = Some (JStr ''Error: Network error - please check your connection'')
           \<and> msg_sources a = None)
     \<and> (\<forall>resp errorData detail.
           outcome e = Response resp \<and> \<not> ok resp \<and> body resp = Some errorData
           \<and> js_get errorData ''detail'' = Inr detail
           \<and> (retry_test n (or_default detail ''Failed to get response'') = Inl TypeError
              \<or> js_toString (or_default detail ''Failed to get response'') = Inl TypeError) \<longrightarrow>
           msg_content a = Some (JStr ''Error: Network error - please check your connection'')
           \<and> msg_sources a = None)"
proof (cases "outcome e")
  case Rejected
  with assms show ?thesis
    by (auto simp: sendMessage_def timers_def appended_def Let_def errorMessage_def split: if_splits)
next
  case (Response resp)
  show ?thesis
  proof (cases "body resp")
    case None
    with Response assms show ?thesis
      by (auto simp: sendMessage_def timers_def appended_def Let_def errorMessage_def split: if_splits)
  next
    case (Some data)
    show ?thesis
    proof (cases "data = JNull")
      case True
      with Some Response assms show ?thesis
        by (auto simp: sendMessage_def timers_def appended_def Let_def errorMessage_def split: if_splits)
    next
      case False
      then obtain answer sources detail where get:
        "js_get data ''answer'' = Inr answer" "js_get data ''sources'' = Inr sources"
        "js_get data ''detail'' = Inr detail"
        using js_get_not_null by blast
      show ?thesis
      proof (cases "ok resp")
        case True
        with False Some Response assms get show ?thesis
          by (simp add: sendMessage_def timers_def appended_def Let_def)
      next
        case nok: False
        show ?thesis
        proof (cases "retry_test n (or_default detail ''Failed to get response'')")
          case (Inl x)
          with nok False Some Response assms get show ?thesis
            by (cases x)
               (auto simp: sendMessage_def timers_def appended_def Let_def errorMessage_def
                  split: if_splits)
        next
          case (Inr b)
          show ?thesis
          proof (cases b)
            case True
            with Inr nok False Some Response assms get show ?thesis
              by (simp add: sendMessage_def timers_def appended_def Let_def)
          next
            case bf: False
            show ?thesis
            proof (cases "js_toString (or_default detail ''Failed to get response'')")
              case (Inl x)
              with bf Inr nok False Some Response assms get show ?thesis
                by (cases x)
                   (auto simp: sendMessage_def timers_def appended_def Let_def errorMessage_def
                      split: if_splits)
            next
              case (Inr str)
              with bf \<open>retry_test n (or_default detail ''Failed to get response'') = Inr b\<close>
                nok False Some Response assms get show ?thesis
                by (simp add: sendMessage_def timers_def appended_def Let_def errorMessage_def)
            qed
          qed
        qed
      qed
    qed
  qed
qed

lemma sample_trim: "trim (input sample_chat) = ''What is clause 4?''"
proof -
  have "trim '' What is clause 4? '' = ''What is clause 4?''" by code_simp
  then show ?thesis by (simp add: sample_chat_def)
qed

lemma message_eqI:
  "msg_id a = i \<Longrightarrow> msg_role a = r \<Longrightarrow> msg_content a = c \<Longrightarrow> msg_timestamp a = t \<Longrightarrow>
   msg_sources a = src \<Longrightarrow>
   (a :: message) = \<lparr>msg_id = i, msg_role = r, msg_content = c, msg_timestamp = t, msg_sources = src\<rparr>"
  by (cases a) simp

text \<open>
  C3. When the trimmed input is not empty, a hub is selected and no query is in flight,
  an exchange (the invocation and the retries it schedules, from any retry count) first
  appends the user's message, before the request is made and settled, and sets at most
  \<open>2 - retryCount\<close> timers. What it adds to the message list is the user's message (role
  user, content the trimmed input, id and time from the clock), once for each
  invocation, followed by exactly one assistant message, which the last invocation
  builds: it carries the answer and the sources of the body when the response is a
  success with a body other than \<^verbatim>\<open>null\<close>; the text \<^verbatim>\<open>Error: \<close> followed by the error
  text when a failed response is shown; and the network error text in every other case.
\<close>

theorem sendMessage_one_assistant_message:
  assumes "trim (input c) \<noteq> []" and "selectedHub c \<noteq> []" and "\<not> isLoading c"
  shows "\<exists>a.
       take 6 (sendMessage_exchange c env retryCount) =
           [SetError None,
            AppendMessage \<lparr>msg_id = show_nat (sent_at (env retryCount)), msg_role = User,
                           msg_content = Some (JStr (trim (input c))),
                           msg_timestamp = sent_at (env retryCount), msg_sources = None\<rparr>,
            SetInput [], SetIsLoading True,
            Fetch ''POST'' ''/api/chat''
              (Some (JObj [(''query'', JStr (trim (input c))), (''hub_name'', JStr (selectedHub c)),
                           (''include_sources'', JBool True)])),
            Settled ''POST'' ''/api/chat'']
     \<and> length (timers (sendMessage_exchange c env retryCount)) \<le> 2 - retryCount
     \<and> messages (run (sendMessage_exchange c env retryCount) s)
         = messages s
           @ map (\<lambda>j. \<lparr>msg_id = show_nat (sent_at (env j)), msg_role = User,
                         msg_content = Some (JStr (trim (input c))),
                         msg_timestamp = sent_at (env j), msg_sources = None\<rparr>)
               [retryCount ..< Suc (last_attempt c env retryCount)]
           @ [a]
     \<and> msg_role a = Assistant
     \<and> msg_id a = show_nat (replied_at (env (last_attempt c env retryCount)) + 1)
     \<and> msg_timestamp a = replied_at (env (last_attempt c env retryCount))
     \<and> (\<forall>resp data. outcome (env (last_attempt c env retryCount)) = Response resp \<and> ok resp \<and> body resp = Some data \<and> data \<noteq> JNull \<longrightarrow>
           js_get data ''answer'' = Inr (msg_content a) \<and> js_get data ''sources'' = Inr (msg_sources a))
     \<and> (\<forall>resp errorData detail text.
           outcome (env (last_attempt c env retryCount)) = Response resp \<and> \<not> ok resp \<and> body resp = Some errorData
           \<and> js_get errorData ''detail'' = Inr detail
           \<and> retry_test (last_attempt c env retryCount) (or_default detail ''Failed to get response'') = Inr False
           \<and> js_toString (or_default detail ''Failed to get response'') = Inr text \<longrightarrow>
           msg_content a = Some (JStr (''Error: '' @ text)) \<and> msg_sources a = None)
     \<and> (outcome (env (last_attempt c env retryCount)) = Rejected \<longrightarrow>
           msg_content a = Some (JStr ''Error: Network error - please check your connection'')
           \<and> msg_sources a = None)
     \<and> (\<forall>resp. outcome (env (last_attempt c env retryCount)) = Response resp \<and> (body resp = None \<or> body resp = Some JNull) \<longrightarrow>
           msg_content a = Some (JStr ''Error: Network error - please check your connection'')
           \<and> msg_sources a = None)
     \<and> (\<forall>resp errorData detail.
           outcome (env (last_attempt c env retryCount)) = Response resp \<and> \<not> ok resp \<and> body resp = Some errorData
           \<and> js_get errorData ''detail'' = Inr detail
           \<and> (retry_test (last_attempt c env retryCount) (or_default detail ''Failed to get response'') = Inl TypeError
              \<or> js_toString (or_default detail ''Failed to get response'') = Inl TypeError) \<longrightarrow>
           msg_content a = Some (JStr ''Error: Network error - please check your connection'')
           \<and> msg_sources a = None)
     \<and> length (assistant_messages (messages (run (sendMessage_exchange c env retryCount) s)))
           = length (assistant_messages (messages s)) + 1"
proof -
  let ?k = "last_attempt c env retryCount"
  let ?t = "sendMessage_exchange c env retryCount"
  let ?U = "\<lambda>j. \<lparr>msg_id = show_nat (sent_at (env j)), msg_role = User,
                   msg_content = Some (JStr (trim (input c))),
                   msg_timestamp = sent_at (env j), msg_sources = None\<rparr>"
  have U: "?U = (\<lambda>j. userMessage c (env j))" by (simp add: userMessage_def)
  from exchange_shape[OF assms, of env retryCount]
  have fin: "timers (sendMessage c (env ?k) ?k) = []"
    and ap: "appended ?t = map (\<lambda>j. userMessage c (env j)) [retryCount ..< ?k]
                            @ appended (sendMessage c (env ?k) ?k)"
    by simp_all
  from final_invocation[OF assms fin]
  obtain a where a1: "appended (sendMessage c (env ?k) ?k) = [userMessage c (env ?k), a]"
    and a2: "msg_role a = Assistant
     \<and> msg_id a = show_nat (replied_at (env (last_attempt c env retryCount)) + 1)
     \<and> msg_timestamp a = replied_at (env (last_attempt c env retryCount))
     \<and> (\<forall>resp data. outcome (env (last_attempt c env retryCount)) = Response resp \<and> ok resp \<and> body resp = Some data \<and> data \<noteq> JNull \<longrightarrow>
           js_get data ''answer'' = Inr (msg_content a) \<and> js_get data ''sources'' = Inr (msg_sources a))
     \<and> (\<forall>resp errorData detail text.
           outcome (env (last_attempt c env retryCount)) = Response resp \<and> \<not> ok resp \<and> body resp = Some errorData
           \<and> js_get errorData ''detail'' = Inr detail
           \<and> retry_test (last_attempt c env retryCount) (or_default detail ''Failed to get response'') = Inr False
           \<and> js_toString (or_default detail ''Failed to get response'') = Inr text \<longrightarrow>
           msg_content a = Some (JStr (''Error: '' @ text)) \<and> msg_sources a = None)
     \<and> (outcome (env (last_attempt c env retryCount)) = Rejected \<longrightarrow>
           msg_content a = Some (JStr ''Error: Network error - please check your connection'')
           \<and> msg_sources a = None)
     \<and> (\<forall>resp. outcome (env (last_attempt c env retryCount)) = Response resp \<and> (body resp = None \<or> body resp = Some JNull) \<longrightarrow>
           msg_content a = Some (JStr ''Error: Network error - please check your connection'')
           \<and> msg_sources a = None)
     \<and> (\<forall>resp errorData detail.
           outcome (env (last_attempt c env retryCount)) = Response resp \<and> \<not> ok resp \<and> body resp = Some errorData
           \<and> js_get errorData ''detail'' = Inr detail
           \<and> (retry_test (last_attempt c env retryCount) (or_default detail ''Failed to get response'') = Inl TypeError
              \<or> js_toString (or_default detail ''Failed to get response'') = Inl TypeError) \<longrightarrow>
           msg_content a = Some (JStr ''Error: Network error - please check your connection'')
           \<and> msg_sources a = None)"
    by blast
  have le: "retryCount \<le> ?k" by (simp add: last_attempt_def)
  have ap': "appended ?t = map ?U [retryCount ..< Suc ?k] @ [a]"
    using le by (simp add: ap a1 U)
  have m: "messages (run ?t s) = messages s @ map ?U [retryCount ..< Suc ?k] @ [a]"
    by (simp add: messages_run[OF keeps_messages_exchange] ap')
  have "assistant_messages (map ?U [retryCount ..< Suc ?k] @ [a]) = [a]"
    using a2 by (simp add: assistant_messages_def)
  then have n: "length (assistant_messages (messages (run ?t s)))
               = length (assistant_messages (messages s)) + 1"
    unfolding m by (simp add: assistant_messages_append)
  have st: "take 6 ?t =
           [SetError None, AppendMessage (?U retryCount), SetInput [], SetIsLoading True,
            Fetch ''POST'' ''/api/chat''
              (Some (JObj [(''query'', JStr (trim (input c))), (''hub_name'', JStr (selectedHub c)),
                           (''include_sources'', JBool True)])),
            Settled ''POST'' ''/api/chat'']"
    using exchange_starts[OF assms, of env retryCount] by (simp add: userMessage_def chat_request_def)
  note b = exchange_timers_bound[of c env retryCount]
  show ?thesis
    by (rule exI[of _ a], intro conjI; insert st b m a2 n; elim conjE; assumption)
qed

theorem sendMessage_one_assistant_message_witness:
  "messages (run (sendMessage_exchange sample_chat (\<lambda>k. sample_rejected) 0) sample_chat)
     = [\<lparr>msg_id = ''7'', msg_role = User, msg_content = Some (JStr ''What is clause 4?''),
         msg_timestamp = 7, msg_sources = None\<rparr>,
        \<lparr>msg_id = ''7'', msg_role = User, msg_content = Some (JStr ''What is clause 4?''),
         msg_timestamp = 7, msg_sources = None\<rparr>,
        \<lparr>msg_id = ''7'', msg_role = User, msg_content = Some (JStr ''What is clause 4?''),
         msg_timestamp = 7, msg_sources = None\<rparr>,
        \<lparr>msg_id = ''9'', msg_role = Assistant,
         msg_content = Some (JStr ''Error: Network error - please check your connection''),
         msg_timestamp = 8, msg_sources = None\<rparr>]
   \<and> messages (run (sendMessage_exchange sample_chat
                      (\<lambda>k. if k = 0 then sample_rejected else sample_answered) 0) sample_chat)
     = [\<lparr>msg_id = ''7'', msg_role = User, msg_content = Some (JStr ''What is clause 4?''),
         msg_timestamp = 7, msg_sources = None\<rparr>,
        \<lparr>msg_id = ''20'', msg_role = User, msg_content = Some (JStr ''What is clause 4?''),
         msg_timestamp = 20, msg_sources = None\<rparr>,
        \<lparr>msg_id = ''31'', msg_role = Assistant,
         msg_content = Some (JStr ''Clause 4 covers termination.''),
         msg_timestamp = 30,
         msg_sources = Some (JArr [JObj [(''content'', JStr ''4. Termination'')]])\<rparr>]"
proof (rule conjI)
  let ?env = "\<lambda>k :: nat. sample_rejected"
  have n: "network_exception sample_rejected"
    by (simp add: network_exception_def sample_rejected_def)
  have la: "last_attempt sample_chat ?env 0 = 2"
    using network_exception_retry[OF sample_guard _ n, of 0]
          network_exception_retry[OF sample_guard _ n, of 1]
          retries_exhausted[OF sample_guard, of 2 sample_rejected] n
    by (simp add: last_attempt_def sample_rejected_exchange timers_append)
  have o: "outcome sample_rejected = Rejected" "replied_at sample_rejected = 8"
    "sent_at sample_rejected = 7" "messages sample_chat = []"
    by (simp_all add: sample_rejected_def sample_chat_def)
  from sendMessage_one_assistant_message[OF sample_guard, of ?env 0 sample_chat]
  obtain a where m: "messages (run (sendMessage_exchange sample_chat ?env 0) sample_chat)
         = messages sample_chat
           @ map (\<lambda>j. \<lparr>msg_id = show_nat (sent_at (?env j)), msg_role = User,
                         msg_content = Some (JStr (trim (input sample_chat))),
                         msg_timestamp = sent_at (?env j), msg_sources = None\<rparr>)
               [0 ..< Suc (last_attempt sample_chat ?env 0)]
           @ [a]"
    and r: "msg_role a = Assistant"
    and i: "msg_id a = show_nat (replied_at (?env (last_attempt sample_chat ?env 0)) + 1)"
    and t: "msg_timestamp a = replied_at (?env (last_attempt sample_chat ?env 0))"
    and c: "outcome (?env (last_attempt sample_chat ?env 0)) = Rejected \<longrightarrow>
           msg_content a = Some (JStr ''Error: Network error - please check your connection'')
           \<and> msg_sources a = None"
    by blast
  have a: "a = \<lparr>msg_id = ''9'', msg_role = Assistant,
         msg_content = Some (JStr ''Error: Network error - please check your connection''),
         msg_timestamp = 8, msg_sources = None\<rparr>"
    using r i t c by (intro message_eqI) (simp_all add: o show_nat.simps digit_def)
  have u: "[0 ..< Suc 2] = [0, 1, 2]" by (simp add: upt_rec)
  show "messages (run (sendMessage_exchange sample_chat ?env 0) sample_chat)
     = [\<lparr>msg_id = ''7'', msg_role = User, msg_content = Some (JStr ''What is clause 4?''),
         msg_timestamp = 7, msg_sources = None\<rparr>,
        \<lparr>msg_id = ''7'', msg_role = User, msg_content = Some (JStr ''What is clause 4?''),
         msg_timestamp = 7, msg_sources = None\<rparr>,
        \<lparr>msg_id = ''7'', msg_role = User, msg_content = Some (JStr ''What is clause 4?''),
         msg_timestamp = 7, msg_sources = None\<rparr>,
        \<lparr>msg_id = ''9'', msg_role = Assistant,
         msg_content = Some (JStr ''Error: Network error - please check your connection''),
         msg_timestamp = 8, msg_sources = None\<rparr>]"
    unfolding m la u a by (simp add: o sample_trim show_nat.simps digit_def)
next
  let ?env = "\<lambda>k :: nat. if k = 0 then sample_rejected else sample_answered"
  have n: "network_exception (?env 0)"
    by (simp add: network_exception_def sample_rejected_def)
  have t1: "timers (sendMessage sample_chat sample_answered 1) = []"
    using sample_guard by (simp add: sendMessage_def sample_answered_def timers_def Let_def)
  have e: "sendMessage_exchange sample_chat ?env 0
             = sendMessage sample_chat sample_rejected 0 @ sendMessage sample_chat sample_answered 1"
  proof -
    have 1: "sendMessage_exchange sample_chat ?env 1 = sendMessage sample_chat sample_answered 1"
      by (subst sendMessage_exchange.simps) (use t1 in simp)
    show ?thesis
      by (subst sendMessage_exchange.simps)
         (use network_exception_retry[OF sample_guard _ n, of 0] 1 in simp)
  qed
  have la: "last_attempt sample_chat ?env 0 = 1"
    using network_exception_retry[OF sample_guard _ n, of 0] t1
    by (simp add: last_attempt_def e timers_append)
  have o: "replied_at sample_answered = 30" "sent_at sample_answered = 20"
    "sent_at sample_rejected = 7" "messages sample_chat = []"
    by (simp_all add: sample_rejected_def sample_answered_def sample_chat_def)
  have ob: "outcome sample_answered = Response \<lparr>ok = True, status = 200, statusText = ''OK'',
                           body = Some (JObj [(''answer'', JStr ''Clause 4 covers termination.''),
                                              (''sources'', JArr [JObj [(''content'', JStr ''4. Termination'')]])])\<rparr>"
    by (simp add: sample_answered_def)
  from sendMessage_one_assistant_message[OF sample_guard, of ?env 0 sample_chat]
  obtain a where m: "messages (run (sendMessage_exchange sample_chat ?env 0) sample_chat)
         = messages sample_chat
           @ map (\<lambda>j. \<lparr>msg_id = show_nat (sent_at (?env j)), msg_role = User,
                         msg_content = Some (JStr (trim (input sample_chat))),
                         msg_timestamp = sent_at (?env j), msg_sources = None\<rparr>)
               [0 ..< Suc (last_attempt sample_chat ?env 0)]
           @ [a]"
    and r: "msg_role a = Assistant"
    and i: "msg_id a = show_nat (replied_at (?env (last_attempt sample_chat ?env 0)) + 1)"
    and t: "msg_timestamp a = replied_at (?env (last_attempt sample_chat ?env 0))"
    and c: "\<forall>resp data. outcome (?env (last_attempt sample_chat ?env 0)) = Response resp \<and> ok resp
               \<and> body resp = Some data \<and> data \<noteq> JNull \<longrightarrow>
           js_get data ''answer'' = Inr (msg_content a) \<and> js_get data ''sources'' = Inr (msg_sources a)"
    by blast
  from c[rule_format, of "\<lparr>ok = True, status = 200, statusText = ''OK'',
                           body = Some (JObj [(''answer'', JStr ''Clause 4 covers termination.''),
                                              (''sources'', JArr [JObj [(''content'', JStr ''4. Termination'')]])])\<rparr>"
           "JObj [(''answer'', JStr ''Clause 4 covers termination.''),
                                              (''sources'', JArr [JObj [(''content'', JStr ''4. Termination'')]])]"]
  have cs: "msg_content a = Some (JStr ''Clause 4 covers termination.'')"
    "msg_sources a = Some (JArr [JObj [(''content'', JStr ''4. Termination'')]])"
    by (simp_all add: la ob)
  have a: "a = \<lparr>msg_id = ''31'', msg_role = Assistant,
         msg_content = Some (JStr ''Clause 4 covers termination.''),
         msg_timestamp = 30,
         msg_sources = Some (JArr [JObj [(''content'', JStr ''4. Termination'')]])\<rparr>"
    using r i t cs by (intro message_eqI) (simp_all add: la o show_nat.simps digit_def)
  have u: "[0 ..< Suc 1] = [0, 1]" by (simp add: upt_rec)
  show "messages (run (sendMessage_exchange sample_chat ?env 0) sample_chat)
     = [\<lparr>msg_id = ''7'', msg_role = User, msg_content = Some (JStr ''What is clause 4?''),
         msg_timestamp = 7, msg_sources = None\<rparr>,
        \<lparr>msg_id = ''20'', msg_role = User, msg_content = Some (JStr ''What is clause 4?''),
         msg_timestamp = 20, msg_sources = None\<rparr>,
        \<lparr>msg_id = ''31'', msg_role = Assistant,
         msg_content = Some (JStr ''Clause 4 covers termination.''),
         msg_timestamp = 30,
         msg_sources = Some (JArr [JObj [(''content'', JStr ''4. Termination'')]])\<rparr>]"
    unfolding m la u a by (simp add: o sample_trim show_nat.simps digit_def)
qed

text \<open>
  C2 as stated fails: the delay depends on the kind of failure, not on the number of the
  retry. When every request is rejected both retries wait 3000 ms, and when every
  response is a failure whose text contains \<^verbatim>\<open>connection\<close> both wait 2000 ms.
\<close>

theorem sendMessage_delay_by_failure_kind:
  "map fst (timers (sendMessage_exchange sample_chat (\<lambda>k. sample_rejected) 0)) = [3000, 3000]
   \<and> map fst (timers (sendMessage_exchange sample_chat (\<lambda>k. sample_keyword) 0)) = [2000, 2000]"
proof -
  have n: "network_exception sample_rejected"
    by (simp add: network_exception_def sample_rejected_def)
  show ?thesis
    using network_exception_retry[OF sample_guard _ n, of 0]
          network_exception_retry[OF sample_guard _ n, of 1]
          retries_exhausted[OF sample_guard, of 2 sample_rejected] n
          keyword_error_retry[OF sample_guard _ sample_keyword_error, of 0]
          keyword_error_retry[OF sample_guard _ sample_keyword_error, of 1]
          retries_exhausted[OF sample_guard, of 2 sample_keyword] sample_keyword_error
    by (simp add: sample_rejected_exchange sample_keyword_exchange timers_append)
qed

text \<open>
  C2, amended. For a send that passes the guard and starts with retry count 0: at most two
  retries are scheduled; an invocation with retry count below 2 that meets a failed
  response whose error text contains \<^verbatim>\<open>network\<close> or \<^verbatim>\<open>connection\<close> schedules the
  next invocation after 2000 ms, one that meets a rejected request schedules it after
  3000 ms, and neither appends an assistant message; when all three invocations fail in
  one of these two ways, the exchange is the three invocations, with the two delays
  given by the kind of the first and of the second failure, and the only assistant
  message appended is the error message of the third invocation.
\<close>

theorem sendMessage_retry_policy:
  assumes "trim (input c) \<noteq> []" and "selectedHub c \<noteq> []" and "\<not> isLoading c"
  shows "length (timers (sendMessage_exchange c env 0)) \<le> 2
     \<and> (\<forall>k<2. keyword_error (env k) \<longrightarrow>
           timers (sendMessage c (env k) k) = [(2000, k + 1)]
           \<and> assistant_messages (appended (sendMessage c (env k) k)) = [])
     \<and> (\<forall>k<2. network_exception (env k) \<longrightarrow>
           timers (sendMessage c (env k) k) = [(3000, k + 1)]
           \<and> assistant_messages (appended (sendMessage c (env k) k)) = [])
     \<and> ((\<forall>k\<le>2. keyword_error (env k) \<or> network_exception (env k)) \<longrightarrow>
           sendMessage_exchange c env 0
             = sendMessage c (env 0) 0 @ sendMessage c (env 1) 1 @ sendMessage c (env 2) 2
           \<and> timers (sendMessage_exchange c env 0)
               = [(retry_delay (env 0), 1), (retry_delay (env 1), 2)]
           \<and> (\<exists>m. assistant_messages (appended (sendMessage_exchange c env 0))
                      = [errorMessage (env 2) m]))"
proof -
  have u: "\<And>e. assistant_messages [userMessage c e] = []"
    by (simp add: assistant_messages_def userMessage_def)
  have b: "length (timers (sendMessage_exchange c env 0)) \<le> 2"
    using exchange_timers_bound[of c env 0] by simp
  have kw: "\<forall>k<2. keyword_error (env k) \<longrightarrow>
           timers (sendMessage c (env k) k) = [(2000, k + 1)]
           \<and> assistant_messages (appended (sendMessage c (env k) k)) = []"
    using keyword_error_retry[OF assms] u by simp
  have ne: "\<forall>k<2. network_exception (env k) \<longrightarrow>
           timers (sendMessage c (env k) k) = [(3000, k + 1)]
           \<and> assistant_messages (appended (sendMessage c (env k) k)) = []"
    using network_exception_retry[OF assms] u by simp
  have ex: "sendMessage_exchange c env 0
             = sendMessage c (env 0) 0 @ sendMessage c (env 1) 1 @ sendMessage c (env 2) 2
           \<and> timers (sendMessage_exchange c env 0)
               = [(retry_delay (env 0), 1), (retry_delay (env 1), 2)]
           \<and> (\<exists>m. assistant_messages (appended (sendMessage_exchange c env 0))
                      = [errorMessage (env 2) m])"
    if all: "\<forall>k\<le>2. keyword_error (env k) \<or> network_exception (env k)"
  proof -
    have excl: "\<And>e. keyword_error e \<Longrightarrow> \<not> network_exception e"
      by (auto simp: keyword_error_def network_exception_def)
    have t: "\<And>k. k < 2 \<Longrightarrow> timers (sendMessage c (env k) k) = [(retry_delay (env k), k + 1)]
                     \<and> appended (sendMessage c (env k) k) = [userMessage c (env k)]"
    proof -
      fix k :: nat assume k: "k < 2"
      with all have "keyword_error (env k) \<or> network_exception (env k)" by simp
      then show "timers (sendMessage c (env k) k) = [(retry_delay (env k), k + 1)]
                     \<and> appended (sendMessage c (env k) k) = [userMessage c (env k)]"
        using keyword_error_retry[OF assms k, of "env k"] network_exception_retry[OF assms k, of "env k"] excl
        by (auto simp: retry_delay_def)
    qed
    from all have "keyword_error (env 2) \<or> network_exception (env 2)" by simp
    from retries_exhausted[OF assms _ this, of 2]
    obtain m where t2: "timers (sendMessage c (env 2) 2) = []"
      and a2: "appended (sendMessage c (env 2) 2) = [userMessage c (env 2), errorMessage (env 2) m]"
      by auto
    have un: "sendMessage_exchange c env 0
             = sendMessage c (env 0) 0 @ sendMessage c (env 1) 1 @ sendMessage c (env 2) 2"
      using t[of 0] t[of 1] t2 by (intro exchange_unfold3) simp_all
    have "assistant_messages (appended (sendMessage_exchange c env 0)) = [errorMessage (env 2) m]"
      using t[of 0] t[of 1] a2
      by (simp add: un appended_append assistant_messages_def userMessage_def errorMessage_def)
    moreover have "timers (sendMessage_exchange c env 0)
               = [(retry_delay (env 0), 1), (retry_delay (env 1), 2)]"
      using t[of 0] t[of 1] t2 by (simp add: un timers_append)
    ultimately show ?thesis using un by blast
  qed
  from b kw ne ex show ?thesis by blast
qed

theorem sendMessage_retry_policy_witness:
  "timers (sendMessage_exchange sample_chat (\<lambda>k. if k = 1 then sample_rejected else sample_keyword) 0)
     = [(2000, 1), (3000, 2)]
   \<and> length (assistant_messages (appended
        (sendMessage_exchange sample_chat (\<lambda>k. if k = 1 then sample_rejected else sample_keyword) 0))) = 1"
proof -
  have n: "network_exception sample_rejected"
    by (simp add: network_exception_def sample_rejected_def)
  have k: "\<not> network_exception sample_keyword"
    by (simp add: network_exception_def sample_keyword_def)
  have all: "\<forall>k\<le>2. keyword_error ((\<lambda>k. if k = 1 then sample_rejected else sample_keyword) k)
                  \<or> network_exception ((\<lambda>k. if k = 1 then sample_rejected else sample_keyword) k)"
    using n sample_keyword_error by simp
  from sendMessage_retry_policy[OF sample_guard, of "\<lambda>k. if k = 1 then sample_rejected else sample_keyword"] all
  show ?thesis
    using n k by (auto simp: retry_delay_def)
qed

subsection \<open>Hub switch\<close>

text \<open>
  C1. When the selection changes from a previously active hub \<open>A\<close> to a different hub
  \<open>B\<close>, the awaited requests of the switch are, in this order: the unload request for
  \<open>A\<close>, its settlement, the load request for \<open>B\<close>, its settlement. The marker is set
  to \<open>B\<close> once, after the load has settled, as the last effect of the switch.
\<close>

theorem switchHub_unload_before_load:
  assumes "selectedHub c = B" and "previousHub c = Some A"
    and "A \<noteq> []" and "B \<noteq> []" and "A \<noteq> B"
  shows "filter (\<lambda>x. is_request x \<or> x = SetPreviousHub (Some B)) (switchHub c r_unload r_load)
           = [Fetch ''POST'' (unload_url A) None, Settled ''POST'' (unload_url A),
              Fetch ''POST'' (load_url B) None, Settled ''POST'' (load_url B),
              SetPreviousHub (Some B)]
         \<and> last (switchHub c r_unload r_load) = SetPreviousHub (Some B)"
  using assms
  by (simp add: switchHub_def unloadHub_def loadHub_def Let_def
      split: fetch_result.split option.split sum.split)

theorem switchHub_unload_before_load_witness:
  "filter (\<lambda>x. is_request x \<or> x = SetPreviousHub (Some ''Specs''))
     (switchHub sample_chat sample_ok Rejected)
   = [Fetch ''POST'' ''/api/hubs/Legal/unload'' None, Settled ''POST'' ''/api/hubs/Legal/unload'',
      Fetch ''POST'' ''/api/hubs/Specs/load'' None, Settled ''POST'' ''/api/hubs/Specs/load'',
      SetPreviousHub (Some ''Specs'')]"
  using switchHub_unload_before_load[of sample_chat "''Specs''" "''Legal''" sample_ok Rejected]
  by (simp add: sample_chat_def unload_url_def load_url_def)

text \<open>
  C4. A switch to \<open>Specs\<close> whose load request is rejected ends with the selection
  cleared but with the marker holding \<open>Specs\<close>: the marker that \<open>loadHub\<close> cleared is
  set again by \<open>switchHub\<close>.
\<close>

theorem switchHub_failed_load_keeps_marker:
  "selectedHub (run (switchHub (sample_chat\<lparr>previousHub := None\<rparr>) Rejected Rejected)
                    (sample_chat\<lparr>previousHub := None\<rparr>)) = []
   \<and> previousHub (run (switchHub (sample_chat\<lparr>previousHub := None\<rparr>) Rejected Rejected)
                      (sample_chat\<lparr>previousHub := None\<rparr>)) = Some ''Specs''"
  by (simp add: switchHub_def loadHub_def sample_chat_def run_Cons run_Nil)

text \<open>The marker after any switch that runs is the hub of the closure, whatever the load gave.\<close>

lemma switchHub_marker:
  assumes "selectedHub c \<noteq> []" and "Some (selectedHub c) \<noteq> previousHub c"
  shows "previousHub (run (switchHub c r_unload r_load) s) = Some (selectedHub c)"
  using assms by (simp add: switchHub_def run_append run_Cons run_Nil)

subsection \<open>Clearing the chat\<close>

text \<open>
  C7. Clearing the chat while hub \<open>X\<close> is selected removes the entry \<open>chat_X\<close> from
  local storage and leaves every other entry as it was, the history entry of every
  other hub among them; the message list is empty afterwards and the save effect of the
  next render writes nothing.
\<close>

theorem clearChat_removes_only_own_history:
  assumes "selectedHub c = X" and "X \<noteq> []"
  shows "localStorage (run (clearChat c) s) (chat_key X) = None
       \<and> (\<forall>Y. Y \<noteq> X \<longrightarrow>
             localStorage (run (clearChat c) s) (chat_key Y) = localStorage s (chat_key Y))
       \<and> (\<forall>k. k \<noteq> chat_key X \<longrightarrow> localStorage (run (clearChat c) s) k = localStorage s k)
       \<and> messages (run (clearChat c) s) = []
       \<and> saveMessages stringify (run (clearChat c) s) = []"
  using assms
  by (simp add: clearChat_def run_Cons run_Nil chat_key_inj saveMessages_def)

theorem clearChat_removes_only_own_history_witness:
  "localStorage (run (clearChat sample_chat) sample_chat) (chat_key ''Specs'') = None
   \<and> localStorage (run (clearChat sample_chat) sample_chat) (chat_key ''Legal'') = Some ''[1]''
   \<and> localStorage (run (clearChat sample_chat) sample_chat) ''user'' = Some ''u''"
  using clearChat_removes_only_own_history[of sample_chat "''Specs''" sample_chat "\<lambda>ms. []"]
  by (simp add: sample_chat_def chat_key_def)

subsection \<open>Failed responses of the hub card and of hub creation\<close>

lemma error_toasts_simps:
  "error_toasts [] = []"
  "error_toasts (x # xs) = (case x of Toast_error m \<Rightarrow> [m] | _ \<Rightarrow> []) @ error_toasts xs"
  "error_toasts (xs @ ys) = error_toasts xs @ error_toasts ys"
  by (simp_all add: error_toasts_def)

lemma has_msg_get:
  "has_msg d m \<Longrightarrow> js_get d ''msg'' = Inr (Some (JStr m)) \<and> m \<noteq> [] \<and> truthy d
      \<and> (\<forall>xs. d \<noteq> JArr xs) \<and> (\<forall>s. d \<noteq> JStr s) \<and> d \<noteq> JNull"
  by (cases d) simp_all

lemma map_throw_element_message:
  "list_all2 has_msg errs ms \<Longrightarrow> map_throw element_message errs = Inr (map (\<lambda>m. Some (JStr m)) ms)"
  by (induction rule: list_all2_induct)
     (auto simp: element_message_def truthy_val_def dest!: has_msg_get)

lemma map_throw_create_element_message:
  "list_all2 has_msg errs ms \<Longrightarrow>
   map_throw (create_element_message stringify) errs = Inr (map (\<lambda>m. Some (JStr m)) ms)"
  by (induction rule: list_all2_induct)
     (auto simp: create_element_message_def truthy_val_def dest!: has_msg_get)

lemma js_join_strings: "js_join sep (map (\<lambda>m. Some (JStr m)) ms) = Inr (intercalate sep ms)"
proof -
  have "map_throw (\<lambda>x. case x of None \<Rightarrow> Inr []
                        | Some j \<Rightarrow> if j = JNull then Inr [] else js_toString j)
          (map (\<lambda>m. Some (JStr m)) ms) = Inr ms"
    by (induction ms) simp_all
  then show ?thesis by (simp add: js_join_def)
qed

lemma card_errorMessage_string:
  "js_get err ''detail'' = Inr (Some (JStr s)) \<Longrightarrow> s \<noteq> [] \<Longrightarrow>
   card_errorMessage fallback err = Inr (JStr s)"
  by (simp add: card_errorMessage_def)

lemma card_errorMessage_object:
  "js_get err ''detail'' = Inr (Some d) \<Longrightarrow> has_msg d m \<Longrightarrow>
   card_errorMessage fallback err = Inr (JStr m)"
  by (cases d) (simp_all add: card_errorMessage_def)

lemma card_errorMessage_list:
  "js_get err ''detail'' = Inr (Some (JArr errs)) \<Longrightarrow> list_all2 has_msg errs ms \<Longrightarrow>
   card_errorMessage fallback err = Inr (JStr (intercalate '', '' ms))"
  by (simp add: card_errorMessage_def map_throw_element_message js_join_strings)

lemma create_errorMessage_string:
  "js_get err ''detail'' = Inr (Some (JStr s)) \<Longrightarrow> s \<noteq> [] \<Longrightarrow>
   create_errorMessage stringify err = Inr (JStr s)"
  by (simp add: create_errorMessage_def truthy_val_def)

lemma create_errorMessage_object:
  "js_get err ''detail'' = Inr (Some d) \<Longrightarrow> has_msg d m \<Longrightarrow>
   create_errorMessage stringify err = Inr (JStr m)"
  by (cases d) (simp_all add: create_errorMessage_def truthy_val_def)

lemma create_errorMessage_list:
  "js_get err ''detail'' = Inr (Some (JArr errs)) \<Longrightarrow> list_all2 has_msg errs ms \<Longrightarrow>
   create_errorMessage stringify err = Inr (JStr (intercalate '', '' ms))"
  by (simp add: create_errorMessage_def truthy_val_def map_throw_create_element_message js_join_strings)

lemma lifecycle_shows:
  assumes "\<not> ok resp" and "sharepoint_linked h" and "body resp = Some err"
    and "\<And>fallback. card_errorMessage fallback err = Inr m"
  shows "lifecycle_error_toasts h isLoaded (Response resp) = [[Some m], [Some m], [Some m]]"
  using assms
  by (simp add: lifecycle_error_toasts_def handleSync_def handleLoadUnload_def handleDelete_def
        Let_def error_toasts_simps)

lemma create_shows:
  assumes "\<not> ok resp" and "body resp = Some err" and "create_errorMessage stringify err = Inr m"
  shows "error_toasts (handleCreateHub stringify hubData (Response resp)) = [Some m]"
  using assms
  by (cases hubData) (simp_all add: handleCreateHub_def Let_def error_toasts_simps)

lemma parse_failure_shows:
  assumes "\<not> ok resp" and "sharepoint_linked h" and "body resp = None"
  shows "lifecycle_error_toasts h isLoaded (Response resp)
           = [[Some (JStr ''Sync failed'')], [Some (JStr ''Operation failed'')],
              [Some (JStr ''Delete failed'')]]
       \<and> error_toasts (handleCreateHub stringify hubData (Response resp))
           = [Some (JStr (''Server error ('' @ show_nat (status resp) @ ''): '' @ statusText resp))]"
  using assms
  by (cases hubData)
     (simp_all add: lifecycle_error_toasts_def handleSync_def handleLoadUnload_def handleDelete_def
        handleCreateHub_def server_error_def Let_def error_toasts_simps)

text \<open>
  C8 as stated fails for the lifecycle operations: when the body of a failed sync
  response cannot be parsed, the notice is the fixed text \<^verbatim>\<open>Sync failed\<close>, which does
  not hold the HTTP status (502 here).
\<close>

theorem handleSync_parse_failure_without_status:
  "error_toasts (handleSync sample_hub (Response sample_unparseable)) = [Some (JStr ''Sync failed'')]
   \<and> \<not> includes_str ''Sync failed'' (show_nat (status sample_unparseable))"
  by (simp add: handleSync_def sample_hub_def sample_unparseable_def error_toasts_simps
        show_nat.simps digit_def Let_def)

text \<open>
  C8, amended. For a failed response to sync, load/unload, delete or create: a detail
  that is a non-empty string is shown as it is; a detail that is an object with a
  non-empty string \<^verbatim>\<open>msg\<close> is shown as that string; a detail that is a list of such
  objects is shown as their strings joined by a comma and a space. When the body cannot
  be parsed, hub creation shows \<^verbatim>\<open>Server error (status): statusText\<close>, and the three
  lifecycle handlers show their fixed text, without the status.
\<close>

theorem failed_response_message:
  assumes "\<not> ok resp" and "sharepoint_linked h"
  shows "(\<forall>err s. body resp = Some err \<and> js_get err ''detail'' = Inr (Some (JStr s)) \<and> s \<noteq> [] \<longrightarrow>
            lifecycle_error_toasts h isLoaded (Response resp)
              = [[Some (JStr s)], [Some (JStr s)], [Some (JStr s)]]
            \<and> error_toasts (handleCreateHub stringify hubData (Response resp)) = [Some (JStr s)])
       \<and> (\<forall>err d m. body resp = Some err \<and> js_get err ''detail'' = Inr (Some d) \<and> has_msg d m \<longrightarrow>
            lifecycle_error_toasts h isLoaded (Response resp)
              = [[Some (JStr m)], [Some (JStr m)], [Some (JStr m)]]
            \<and> error_toasts (handleCreateHub stringify hubData (Response resp)) = [Some (JStr m)])
       \<and> (\<forall>err errs ms. body resp = Some err \<and> js_get err ''detail'' = Inr (Some (JArr errs))
              \<and> list_all2 has_msg errs ms \<longrightarrow>
            lifecycle_error_toasts h isLoaded (Response resp)
              = [[Some (JStr (intercalate '', '' ms))], [Some (JStr (intercalate '', '' ms))],
                 [Some (JStr (intercalate '', '' ms))]]
            \<and> error_toasts (handleCreateHub stringify hubData (Response resp))
              = [Some (JStr (intercalate '', '' ms))])
       \<and> (body resp = None \<longrightarrow>
            lifecycle_error_toasts h isLoaded (Response resp)
              = [[Some (JStr ''Sync failed'')], [Some (JStr ''Operation failed'')],
                 [Some (JStr ''Delete failed'')]]
            \<and> error_toasts (handleCreateHub stringify hubData (Response resp))
              = [Some (JStr (''Server error ('' @ show_nat (status resp) @ ''): '' @ statusText resp))])"
proof (intro conjI allI impI)
  fix err s
  assume "body resp = Some err \<and> js_get err ''detail'' = Inr (Some (JStr s)) \<and> s \<noteq> []"
  then have b: "body resp = Some err" and d: "js_get err ''detail'' = Inr (Some (JStr s))"
    and n: "s \<noteq> []" by simp_all
  show "lifecycle_error_toasts h isLoaded (Response resp)
              = [[Some (JStr s)], [Some (JStr s)], [Some (JStr s)]]"
    using lifecycle_shows[OF assms b card_errorMessage_string[OF d n]] .
  show "error_toasts (handleCreateHub stringify hubData (Response resp)) = [Some (JStr s)]"
    using create_shows[OF assms(1) b create_errorMessage_string[OF d n]] .
next
  fix err d m
  assume "body resp = Some err \<and> js_get err ''detail'' = Inr (Some d) \<and> has_msg d m"
  then have b: "body resp = Some err" and d: "js_get err ''detail'' = Inr (Some d)"
    and m: "has_msg d m" by simp_all
  show "lifecycle_error_toasts h isLoaded (Response resp)
              = [[Some (JStr m)], [Some (JStr m)], [Some (JStr m)]]"
    using lifecycle_shows[OF assms b card_errorMessage_object[OF d m]] .
  show "error_toasts (handleCreateHub stringify hubData (Response resp)) = [Some (JStr m)]"
    using create_shows[OF assms(1) b create_errorMessage_object[OF d m]] .
next
  fix err errs ms
  assume "body resp = Some err \<and> js_get err ''detail'' = Inr (Some (JArr errs))
              \<and> list_all2 has_msg errs ms"
  then have b: "body resp = Some err" and d: "js_get err ''detail'' = Inr (Some (JArr errs))"
    and l: "list_all2 has_msg errs ms" by simp_all
  show "lifecycle_error_toasts h isLoaded (Response resp)
              = [[Some (JStr (intercalate '', '' ms))], [Some (JStr (intercalate '', '' ms))],
                 [Some (JStr (intercalate '', '' ms))]]"
    using lifecycle_shows[OF assms b card_errorMessage_list[OF d l]] .
  show "error_toasts (handleCreateHub stringify hubData (Response resp))
              = [Some (JStr (intercalate '', '' ms))]"
    using create_shows[OF assms(1) b create_errorMessage_list[OF d l]] .
next
  assume "body resp = None"
  from parse_failure_shows[OF assms this, of isLoaded stringify hubData]
  show "lifecycle_error_toasts h isLoaded (Response resp)
              = [[Some (JStr ''Sync failed'')], [Some (JStr ''Operation failed'')],
                 [Some (JStr ''Delete failed'')]]"
    and "error_toasts (handleCreateHub stringify hubData (Response resp))
              = [Some (JStr (''Server error ('' @ show_nat (status resp) @ ''): '' @ statusText resp))]"
    by simp_all
qed

theorem failed_response_message_witness:
  "lifecycle_error_toasts sample_hub False (Response sample_validation)
     = [[Some (JStr ''field required, bad link'')], [Some (JStr ''field required, bad link'')],
        [Some (JStr ''field required, bad link'')]]
   \<and> error_toasts (handleCreateHub (\<lambda>j. []) (Payload JNull) (Response sample_unparseable))
     = [Some (JStr ''Server error (502): Bad Gateway'')]"
proof -
  have a: "\<not> ok sample_validation" "sharepoint_linked sample_hub" "\<not> ok sample_unparseable"
    by (simp_all add: sample_validation_def sample_hub_def sample_unparseable_def)
  have l: "list_all2 has_msg
             [JObj [(''loc'', JStr ''hub_name''), (''msg'', JStr ''field required'')],
              JObj [(''msg'', JStr ''bad link'')]]
             [''field required'', ''bad link'']"
    by simp
  have b: "body sample_validation = Some (JObj [(''detail'',
               JArr [JObj [(''loc'', JStr ''hub_name''), (''msg'', JStr ''field required'')],
                     JObj [(''msg'', JStr ''bad link'')]])])"
    "body sample_unparseable = None" "status sample_unparseable = 502"
    "statusText sample_unparseable = ''Bad Gateway''"
    by (simp_all add: sample_validation_def sample_unparseable_def)
  have d: "js_get (JObj [(''detail'',
               JArr [JObj [(''loc'', JStr ''hub_name''), (''msg'', JStr ''field required'')],
                     JObj [(''msg'', JStr ''bad link'')]])]) ''detail''
           = Inr (Some (JArr [JObj [(''loc'', JStr ''hub_name''), (''msg'', JStr ''field required'')],
                     JObj [(''msg'', JStr ''bad link'')]]))"
    by simp
  note v = failed_response_message[OF a(1,2), of False "\<lambda>j. []" "Payload JNull",
             THEN conjunct2, THEN conjunct2, THEN conjunct1, rule_format, OF conjI, OF b(1) conjI, OF d l]
  note u = failed_response_message[OF a(3,2), of False "\<lambda>j. []" "Payload JNull",
             THEN conjunct2, THEN conjunct2, THEN conjunct2, rule_format, OF b(2)]
  from v u show ?thesis
    by (simp add: b show_nat.simps digit_def)
qed


subsection \<open>Persisted chat history\<close>

lemma safe_write_preserves:
  "safe_write stringify x \<Longrightarrow> chat_history_ok stringify ls \<Longrightarrow>
   chat_history_ok stringify (apply_storage x ls)"
  by (cases x) (auto simp: chat_history_ok_def)

lemma safe_authCheck: "x \<in> set (ChatPage_authCheck now ls0) \<Longrightarrow> safe_write stringify x"
  by (auto simp: ChatPage_authCheck_def forced_logout_def Let_def chat_key_def split: if_splits)

lemma safe_saveMessages: "x \<in> set (saveMessages stringify c) \<Longrightarrow> safe_write stringify x"
  by (auto simp: saveMessages_def split: if_splits)

lemma no_write_loadHub: "SetItem k v \<notin> set (loadHub c r)"
  by (simp add: loadHub_def Let_def split: fetch_result.split option.split sum.split)

lemma no_write_unloadHub: "SetItem k v \<notin> set (unloadHub c h r)"
  by (simp add: unloadHub_def Let_def split: fetch_result.split option.split sum.split)

lemma no_write_clearChat: "SetItem k v \<notin> set (clearChat c)"
  by (simp add: clearChat_def)

lemma no_write_switchHub: "SetItem k v \<notin> set (switchHub c r_unload r_load)"
  by (simp add: switchHub_def no_write_loadHub no_write_unloadHub split: option.split)

lemma no_write_sendMessage: "SetItem k v \<notin> set (sendMessage c e n)"
  by (simp add: sendMessage_def Let_def
      split: fetch_result.split option.split sum.split bool.split)

lemma safe_no_write: "(\<And>k v. SetItem k v \<notin> set es) \<Longrightarrow> x \<in> set es \<Longrightarrow> safe_write stringify x"
  by (cases x) auto

lemma step_preserves:
  "chat_storage_step stringify ls ls' \<Longrightarrow> chat_history_ok stringify ls \<Longrightarrow>
   chat_history_ok stringify ls'"
proof (induction rule: chat_storage_step.induct)
  case (step_authCheck x now ls0 ls)
  then show ?case by (intro safe_write_preserves safe_authCheck)
next
  case (step_saveMessages x c ls)
  then show ?case by (intro safe_write_preserves safe_saveMessages)
next
  case (step_switchHub x c r_unload r_load ls)
  then show ?case by (intro safe_write_preserves safe_no_write[OF no_write_switchHub])
next
  case (step_loadHub x c r ls)
  then show ?case by (intro safe_write_preserves safe_no_write[OF no_write_loadHub])
next
  case (step_unloadHub x c hubName r ls)
  then show ?case by (intro safe_write_preserves safe_no_write[OF no_write_unloadHub])
next
  case (step_clearChat x c ls)
  then show ?case by (intro safe_write_preserves safe_no_write[OF no_write_clearChat])
next
  case (step_sendMessage x c e retryCount ls)
  then show ?case by (intro safe_write_preserves safe_no_write[OF no_write_sendMessage])
qed

lemma reach_preserves:
  "chat_storage_reach stringify ls ls' \<Longrightarrow> chat_history_ok stringify ls \<Longrightarrow>
   chat_history_ok stringify ls'"
  by (induction rule: chat_storage_reach.induct) (auto intro: step_preserves)

lemma run_storage_simps:
  "run_storage [] ls = ls"
  "run_storage (x # xs) ls = run_storage xs (apply_storage x ls)"
  "run_storage (xs @ ys) ls = run_storage ys (run_storage xs ls)"
  by (simp_all add: run_storage_def)

lemma clearChat_removes:
  "selectedHub c \<noteq> [] \<Longrightarrow> run_storage (clearChat c) ls (chat_key (selectedHub c)) = None"
  by (simp add: clearChat_def run_storage_simps)

lemma unloadHub_removes:
  assumes "ok resp" and "body resp = Some result" and "result \<noteq> JNull"
  shows "run_storage (unloadHub c (selectedHub c) (Response resp)) ls (chat_key (selectedHub c)) = None"
proof -
  from assms(3) obtain m where "js_get result ''message'' = Inr m"
    by (cases result) simp_all
  with assms(1,2) show ?thesis
    by (simp add: unloadHub_def run_storage_simps)
qed

text \<open>
  C9. From a local storage in which every chat history entry is the serialization of a
  non-empty message list, every storage the chat page reaches has that property: the
  save effect writes only for a selected hub and a non-empty list, and writes that
  list's serialization under the hub's key; clearing the chat and unloading a hub write
  nothing; clearing the chat with a hub selected, and a successful unload of the
  selected hub, leave no entry under the hub's key.
\<close>

theorem chat_history_entries_nonempty:
  assumes "chat_history_ok stringify ls" and "chat_storage_reach stringify ls ls'"
  shows "chat_history_ok stringify ls'
       \<and> (\<forall>c k v. SetItem k v \<in> set (saveMessages stringify c) \<longrightarrow>
            selectedHub c \<noteq> [] \<and> messages c \<noteq> []
            \<and> k = chat_key (selectedHub c) \<and> v = stringify (messages c))
       \<and> (\<forall>c k v. SetItem k v \<notin> set (clearChat c))
       \<and> (\<forall>c h r k v. SetItem k v \<notin> set (unloadHub c h r))
       \<and> (\<forall>c. selectedHub c \<noteq> [] \<longrightarrow>
            run_storage (clearChat c) ls' (chat_key (selectedHub c)) = None)
       \<and> (\<forall>c resp result. ok resp \<and> body resp = Some result \<and> result \<noteq> JNull \<longrightarrow>
            run_storage (unloadHub c (selectedHub c) (Response resp)) ls' (chat_key (selectedHub c))
              = None)"
proof -
  have "\<forall>c k v. SetItem k v \<in> set (saveMessages stringify c) \<longrightarrow>
            selectedHub c \<noteq> [] \<and> messages c \<noteq> []
            \<and> k = chat_key (selectedHub c) \<and> v = stringify (messages c)"
    by (auto simp: saveMessages_def split: if_splits)
  then show ?thesis
    using reach_preserves[OF assms(2,1)] no_write_clearChat no_write_unloadHub
      clearChat_removes unloadHub_removes
    by blast
qed

theorem chat_history_entries_nonempty_witness:
  "chat_history_ok sample_stringify
     (apply_storage (RemoveItem (chat_key ''Legal''))
        (apply_storage (SetItem (chat_key ''Specs'') (sample_stringify (messages (sample_chat\<lparr>messages := [userMessage sample_chat sample_rejected]\<rparr>))))
           (localStorage sample_chat)))
   \<and> run_storage (clearChat sample_chat)
        (apply_storage (RemoveItem (chat_key ''Legal''))
        (apply_storage (SetItem (chat_key ''Specs'') (sample_stringify (messages (sample_chat\<lparr>messages := [userMessage sample_chat sample_rejected]\<rparr>))))
           (localStorage sample_chat))) (chat_key ''Specs'') = None"
proof -
  let ?c = "sample_chat\<lparr>messages := [userMessage sample_chat sample_rejected]\<rparr>"
  let ?l0 = "localStorage sample_chat"
  let ?l1 = "apply_storage (SetItem (chat_key ''Specs'') (sample_stringify (messages ?c))) ?l0"
  let ?l2 = "apply_storage (RemoveItem (chat_key ''Legal'')) ?l1"
  have ok0: "chat_history_ok sample_stringify ?l0"
  proof -
    have "sample_stringify [userMessage sample_chat sample_rejected] = ''[1]''"
      "sample_stringify [userMessage sample_chat sample_rejected, userMessage sample_chat sample_rejected] = ''[2]''"
      by (simp_all add: sample_stringify_def show_nat.simps digit_def)
    then have "\<exists>ms. ms \<noteq> [] \<and> ''[1]'' = sample_stringify ms" "\<exists>ms. ms \<noteq> [] \<and> ''[2]'' = sample_stringify ms"
      by (metis list.distinct(1))+
    then show ?thesis
      by (auto simp: chat_history_ok_def sample_chat_def chat_key_def split: if_splits)
  qed
  have s1: "chat_storage_step sample_stringify ?l0 ?l1"
    by (rule step_saveMessages[where c = ?c]) (simp add: saveMessages_def sample_chat_def)
  have s2: "chat_storage_step sample_stringify ?l1 ?l2"
    by (rule step_clearChat[where c = "sample_chat\<lparr>selectedHub := ''Legal''\<rparr>"])
       (simp add: clearChat_def)
  have r: "chat_storage_reach sample_stringify ?l0 ?l2"
    by (rule reach_step[OF reach_step[OF reach_refl s1] s2])
  have sel: "selectedHub sample_chat = ''Specs''" by (simp add: sample_chat_def)
  from chat_history_entries_nonempty[OF ok0 r]
  have "chat_history_ok sample_stringify ?l2"
    and "selectedHub sample_chat \<noteq> [] \<longrightarrow>
            run_storage (clearChat sample_chat) ?l2 (chat_key (selectedHub sample_chat)) = None"
    by blast+
  then show ?thesis by (simp add: sel)
qed


subsection \<open>Upload zone\<close>

lemma suffix_rev_prefix: "suffix xs ys \<longleftrightarrow> prefix (rev xs) (rev ys)"
  by (metis rev_rev_ident suffix_to_prefix)

lemma fst_onDrop:
  "fst (onDrop a r prev) = prev @ filter (\<lambda>f. file_size f \<le> maxSize) a"
  by (simp add: onDrop_def Let_def)

lemma oversize_notices_onDrop:
  "filter is_oversize_notice (snd (onDrop a r prev)) =
     (if length (filter (\<lambda>f. maxSize < file_size f) a) = 0 then []
      else [ToastError (show_nat (length (filter (\<lambda>f. maxSize < file_size f) a))
              @ '' file(s) too large (max 50MB each)'')])"
  by (simp add: onDrop_def Let_def is_oversize_notice_def suffix_rev_prefix)

text \<open>
  C6. For every dropped batch: the pending list keeps what it held; what is appended is
  the accepted files of at most 52428800 bytes, in the order of the batch; an accepted
  file above that size is not appended; and when there is such a file, exactly one
  oversize notice is raised, carrying their number.
\<close>

theorem onDrop_size_ceiling:
  "take (length prev) (fst (onDrop accepted rejected prev)) = prev
   \<and> subseq (drop (length prev) (fst (onDrop accepted rejected prev))) accepted
   \<and> (\<forall>f \<in> set accepted.
         (f \<in> set (drop (length prev) (fst (onDrop accepted rejected prev))))
           = (file_size f \<le> 52428800))
   \<and> drop (length prev) (fst (onDrop accepted rejected prev))
        = filter (\<lambda>f. file_size f \<le> 52428800) accepted
   \<and> filter is_oversize_notice (snd (onDrop accepted rejected prev)) =
        (if \<exists>f \<in> set accepted. 52428800 < file_size f
         then [ToastError (show_nat (length (filter (\<lambda>f. 52428800 < file_size f) accepted))
                 @ '' file(s) too large (max 50MB each)'')]
         else [])"
proof -
  have m: "maxSize = 52428800" by (simp add: maxSize_def)
  have e: "(\<exists>f \<in> set accepted. 52428800 < file_size f)
             \<longleftrightarrow> length (filter (\<lambda>f. maxSize < file_size f) accepted) \<noteq> 0"
    unfolding m by (auto simp: filter_empty_conv)
  show ?thesis
    unfolding fst_onDrop oversize_notices_onDrop e unfolding m
    by auto
qed

theorem onDrop_size_ceiling_witness:
  "fst (onDrop sample_files ([] :: unit list) [\<lparr>file_name = ''z.pdf'', file_size = 1\<rparr>])
     = [\<lparr>file_name = ''z.pdf'', file_size = 1\<rparr>,
        \<lparr>file_name = ''a.pdf'', file_size = 10\<rparr>,
        \<lparr>file_name = ''c.docx'', file_size = 52428800\<rparr>]
   \<and> filter is_oversize_notice
        (snd (onDrop sample_files ([] :: unit list) [\<lparr>file_name = ''z.pdf'', file_size = 1\<rparr>]))
     = [ToastError ''1 file(s) too large (max 50MB each)'']"
proof -
  have t: "take (Suc 0) (fst (onDrop sample_files ([] :: unit list) [\<lparr>file_name = ''z.pdf'', file_size = 1\<rparr>]))
             @ drop (Suc 0) (fst (onDrop sample_files ([] :: unit list) [\<lparr>file_name = ''z.pdf'', file_size = 1\<rparr>]))
           = fst (onDrop sample_files ([] :: unit list) [\<lparr>file_name = ''z.pdf'', file_size = 1\<rparr>])"
    by (rule append_take_drop_id)
  from onDrop_size_ceiling[of "[\<lparr>file_name = ''z.pdf'', file_size = 1\<rparr>]" sample_files "[] :: unit list"] t
  show ?thesis
    by (simp add: sample_files_def show_nat.simps digit_def)
qed

subsection \<open>Size label\<close>

lemma size_index_bounds:
  assumes "1 \<le> b" and "b < 1024 ^ 4"
  shows "\<exists>i. size_index b = Some i \<and> 0 \<le> i \<and> i \<le> 3"
proof -
  have pos: "0 < real b" using assms(1) by simp
  have lk: "0 < ln (1024::real)" by simp
  have l0: "0 \<le> ln (real b)" using assms(1) by simp
  have "real b < 1024 ^ 4" using assms(2) by (metis of_nat_less_iff of_nat_numeral of_nat_power)
  then have "ln (real b) < ln ((1024::real) ^ 4)" using pos by (subst ln_less_cancel_iff) simp_all
  moreover have "ln ((1024::real) ^ 4) = real 4 * ln 1024" by (rule ln_realpow)
  ultimately have "ln (real b) < 4 * ln (1024::real)" by simp
  then have "ln (real b) / ln 1024 < 4" using lk by (simp add: pos_divide_less_eq)
  then have up: "\<lfloor>ln (real b) / ln 1024\<rfloor> \<le> 3" by linarith
  have "0 \<le> ln (real b) / ln 1024" using l0 lk by simp
  then have lo: "0 \<le> \<lfloor>ln (real b) / ln 1024\<rfloor>" by simp
  have "size_index b = Some \<lfloor>ln (real b) / ln 1024\<rfloor>"
    using pos by (simp add: size_index_def Math_log_def)
  with lo up show ?thesis by simp
qed

text \<open>
  C10. \<open>formatFileSize\<close> returns the literal \<^verbatim>\<open>0 Bytes\<close> for zero, without taking a
  logarithm; for a byte count \<open>b\<close> with \<open>1 \<le> b < 1024 ^ 4\<close> the logarithm is defined, the
  unit index lies in \<open>0..3\<close>, within the bounds of the unit list, and the label carries
  the unit at that index.
\<close>

theorem formatFileSize_unit_in_bounds:
  "formatFileSize 0 = Label ''0 Bytes''
   \<and> (1 \<le> b \<and> b < 1024 ^ 4 \<longrightarrow>
        (\<exists>i. size_index b = Some i \<and> 0 \<le> i \<and> i < int (length sizes)
            \<and> js_nth sizes i = Some (sizes ! nat i)
            \<and> formatFileSize b = Scaled (real b / 1024 powr real_of_int i) (Some (sizes ! nat i))))"
proof (intro conjI impI)
  show "formatFileSize 0 = Label ''0 Bytes''" by (simp add: formatFileSize_def)
next
  assume "1 \<le> b \<and> b < 1024 ^ 4"
  then have b: "1 \<le> b" "b < 1024 ^ 4" by simp_all
  from size_index_bounds[OF b] obtain i where i: "size_index b = Some i" "0 \<le> i" "i \<le> 3" by blast
  then have n: "js_nth sizes i = Some (sizes ! nat i)" by (simp add: js_nth_def sizes_def)
  have "formatFileSize b = Scaled (real b / 1024 powr real_of_int i) (Some (sizes ! nat i))"
    using b(1) i(1) n by (simp add: formatFileSize_def)
  with i n show "\<exists>i. size_index b = Some i \<and> 0 \<le> i \<and> i < int (length sizes)
            \<and> js_nth sizes i = Some (sizes ! nat i)
            \<and> formatFileSize b = Scaled (real b / 1024 powr real_of_int i) (Some (sizes ! nat i))"
    by (auto simp: sizes_def)
qed

lemma size_index_1024: "size_index 1024 = Some 1"
  by (simp add: size_index_def Math_log_def)

theorem formatFileSize_unit_in_bounds_witness:
  "formatFileSize 1024 = Scaled 1 (Some ''KB'')"
proof -
  from formatFileSize_unit_in_bounds[of 1024]
  obtain i where "size_index 1024 = Some i"
    and "formatFileSize 1024 = Scaled (real 1024 / 1024 powr real_of_int i) (Some (sizes ! nat i))"
    by auto
  then show ?thesis by (simp add: size_index_1024 sizes_def)
qed

text \<open>
  The bounds do not depend on the quotient being exact: they hold for every relative
  error of at most \<open>1 / 2 ^ 46\<close> in the quotient.
\<close>

lemma quotient_below_4:
  assumes "1 \<le> b" and "b < 1024 ^ 4"
  shows "ln (real b) / ln 1024 \<le> 4 - 1 / (10 * 1024 ^ 4)"
proof -
  have pos: "0 < real b" using assms(1) by simp
  have p4: "(0::real) < 1024 ^ 4" by simp
  have "b + 1 \<le> 1024 ^ 4" using assms(2) by simp
  then have "real (b + 1) \<le> real (1024 ^ 4)" by (rule of_nat_mono)
  then have le: "real b \<le> 1024 ^ 4 - 1" by simp
  have "ln (real b) - ln ((1024::real) ^ 4) \<le> (real b - 1024 ^ 4) / 1024 ^ 4"
    by (rule ln_diff_le[OF pos p4])
  also have "\<dots> \<le> (- 1) / 1024 ^ 4"
    using le by (intro divide_right_mono) simp_all
  finally have a: "ln (real b) \<le> ln ((1024::real) ^ 4) - 1 / 1024 ^ 4" by simp
  have l4: "ln ((1024::real) ^ 4) = real 4 * ln 1024" by (rule ln_realpow)
  have "(1024::real) = 2 ^ 10" by simp
  then have "ln (1024::real) = ln (2 ^ 10)" by simp
  also have "\<dots> = real 10 * ln 2" by (rule ln_realpow)
  finally have lk: "ln (1024::real) = 10 * ln 2" by simp
  have l2: "ln (2::real) \<le> 1" using ln_le_minus_one[of "2::real"] by simp
  have l2pos: "0 < ln (2::real)" by simp
  have lk10: "ln (1024::real) \<le> 10" using lk l2 by simp
  have lkpos: "0 < ln (1024::real)" using lk l2pos by simp
  define k where "k = ln (1024::real)"
  define x where "x = ln (real b)"
  define e where "e = (1::real) / 1024 ^ 4"
  have epos: "0 < e" by (simp add: e_def)
  have kpos: "0 < k" and k10: "k \<le> 10" using lkpos lk10 by (simp_all add: k_def)
  have xle: "x \<le> 4 * k - e" using a l4 by (simp add: x_def k_def e_def)
  have "x / k \<le> (4 * k - e) / k" using xle kpos by (simp add: divide_right_mono)
  also have "\<dots> = 4 - e / k" using kpos by (simp add: diff_divide_distrib)
  also have "\<dots> \<le> 4 - e / 10"
  proof -
    have "e / 10 \<le> e / k" using epos kpos k10 by (intro divide_left_mono) simp_all
    then show ?thesis by simp
  qed
  finally have "x / k \<le> 4 - e / 10" .
  then show ?thesis by (simp add: x_def k_def e_def)
qed

lemma size_index_stable_under_rounding:
  assumes "1 \<le> b" and "b < 1024 ^ 4" and "\<bar>d\<bar> \<le> 1 / 2 ^ 46"
  shows "0 \<le> size_index_rounded d b \<and> size_index_rounded d b \<le> 3"
proof -
  define q where "q = ln (real b) / ln 1024"
  have q0: "0 \<le> q" using assms(1) by (simp add: q_def)
  have q4: "q \<le> 4 - 1 / (10 * 1024 ^ 4)" using quotient_below_4[OF assms(1,2)] by (simp add: q_def)
  have d1: "d \<le> 1 / 2 ^ 46" and d2: "- (1 / 2 ^ 46) \<le> d" using assms(3) by (simp_all add: abs_le_iff)
  have "0 \<le> 1 + d" using d2 by simp
  then have lo: "0 \<le> q * (1 + d)" using q0 by simp
  have "q * d \<le> 4 * (1 / 2 ^ 46)"
  proof (cases "0 \<le> d")
    case True
    have "q \<le> 4" using q4 by simp
    with True d1 q0 show ?thesis by (intro mult_mono) simp_all
  next
    case False
    then have "q * d \<le> 0" using q0 by (simp add: mult_nonneg_nonpos)
    then show ?thesis by simp
  qed
  then have "q * (1 + d) \<le> q + 4 * (1 / 2 ^ 46)" by (simp add: algebra_simps)
  also have "\<dots> \<le> 4 - 1 / (10 * 1024 ^ 4) + 4 * (1 / 2 ^ 46)" using q4 by simp
  also have "\<dots> < 4" by simp
  finally have "q * (1 + d) < 4" .
  then have up: "\<lfloor>q * (1 + d)\<rfloor> \<le> 3" by linarith
  from lo have "0 \<le> \<lfloor>q * (1 + d)\<rfloor>" by simp
  with up show ?thesis by (simp add: size_index_rounded_def q_def)
qed

lemma size_index_rounded_exact:
  "0 < b \<Longrightarrow> size_index b = Some (size_index_rounded 0 b)"
  by (simp add: size_index_def size_index_rounded_def Math_log_def)


text \<open>The bound is sharp: at \<open>1024 ^ 4\<close> the index is 4 and the unit read is out of range.\<close>

lemma size_index_limit: "size_index (1024 ^ 4) = Some 4 \<and> js_nth sizes 4 = None"
proof -
  have e: "real (1024 ^ 4) = (1024::real) ^ 4" by simp
  have l: "ln ((1024::real) ^ 4) = real 4 * ln 1024" by (rule ln_realpow)
  have p: "(0::real) < 1024 ^ 4" by simp
  have "size_index (1024 ^ 4) = Some \<lfloor>ln ((1024::real) ^ 4) / ln 1024\<rfloor>"
    unfolding size_index_def Math_log_def e using p by simp
  then have "size_index (1024 ^ 4) = Some 4" unfolding l by simp
  then show ?thesis by (simp add: js_nth_def sizes_def)
qed


end
